theory Spec2Isabelle
  imports Main "HOL-Library.Sublist"
begin

section \<open>The WebSocket client (src/web/src/lib/api/websocket.ts)\<close>

text \<open>
  The commands of src/web/src/lib/api/types.ts (type \<open>Command\<close>), one constructor per
  variant of the tagged union, the fields in the order of the source.
\<close>

datatype Command =
    ProcessInput string
  | ExecuteShell string
  | InvokeCliAgent string string
  | SendPtyInput string "nat list"
  | ResizePty string nat nat
  | ReadFile string
  | WriteFile string string
  | CancelAgent string
  | ListWorkspaces
  | CreateWorkspace string string
  | DeleteWorkspace string
  | ActivateWorkspace string
  | ListFiles string bool

datatype ConnectionState = Connecting | Connected | Disconnected | Errored

text \<open>The \<open>readyState\<close> of a browser WebSocket object.\<close>

datatype ReadyState = CONNECTING | OPEN | CLOSING | CLOSED

text \<open>
  \<open>WebSocketClientOptions\<close> after the merge with \<open>DEFAULT_OPTIONS\<close>. The two numeric
  options are a count of attempts and a number of milliseconds: natural numbers.
  A callback is code of the caller that runs inside the client's own methods. Of what it
  may do to the client the model keeps the calls of \<open>send\<close>: \<open>onStateChange\<close> is the list
  of commands it passes to \<open>send\<close> for each state it is told about (none, for the
  callback \<open>setConnectionState\<close> that src/web/src/lib/api/hooks.ts installs).
  \<open>onNotification\<close> and \<open>onError\<close> are not modelled.
\<close>

record WebSocketClientOptions =
  onStateChange :: "ConnectionState \<Rightarrow> Command list"
  reconnect :: bool
  reconnectInterval :: nat
  maxReconnectAttempts :: nat

definition DEFAULT_OPTIONS :: WebSocketClientOptions where
  "DEFAULT_OPTIONS =
     \<lparr>onStateChange = (\<lambda>_. []), reconnect = True, reconnectInterval = 2000,
      maxReconnectAttempts = 5\<rparr>"

text \<open>
  The fields of class \<open>AxiomWebSocket\<close>, and the part of the browser they refer to:
  \<open>sockets\<close> is the store of the WebSocket objects created so far (number \<open>i\<close> is the
  \<open>i\<close>-th one created, with its \<open>readyState\<close>), \<open>ws\<close> points into it, \<open>wire\<close> logs
  every call of \<open>WebSocket.send\<close> (socket and command, in call order), \<open>timeouts\<close>
  logs the delay of every call of \<open>setTimeout\<close>, and \<open>timerArmed\<close> says that the last
  timeout has neither fired nor been cleared. \<open>reconnectTimer\<close> holds the delay the
  timer was set with.
\<close>

record AxiomWebSocket =
  sockets :: "nat \<Rightarrow> ReadyState option"
  nsockets :: nat
  wire :: "(nat \<times> Command) list"
  timeouts :: "nat list"
  timerArmed :: bool
  ws :: "nat option"
  options :: WebSocketClientOptions
  state :: ConnectionState
  reconnectAttempts :: nat
  reconnectTimer :: "nat option"
  messageQueue :: "Command list"

text \<open>The constructor: \<open>new AxiomWebSocket(url, options)\<close>.\<close>

definition AxiomWebSocket_new :: "WebSocketClientOptions \<Rightarrow> AxiomWebSocket" where
  "AxiomWebSocket_new opts =
     \<lparr>sockets = Map.empty, nsockets = 0, wire = [], timeouts = [], timerArmed = False,
      ws = None, options = opts, state = Disconnected, reconnectAttempts = 0,
      reconnectTimer = None, messageQueue = []\<rparr>"

text \<open>
  \<open>this.ws?.readyState === WebSocket.OPEN\<close>: the optional chain gives no value when
  \<open>this.ws\<close> is null.
\<close>

definition ws_open :: "AxiomWebSocket \<Rightarrow> bool" where
  "ws_open s = (Option.bind (ws s) (sockets s) = Some OPEN)"

text \<open>
  \<open>send\<close>: transmit on the open socket and return true; otherwise queue the command if
  reconnecting is enabled, and return false.
\<close>

definition send :: "Command \<Rightarrow> AxiomWebSocket \<Rightarrow> bool \<times> AxiomWebSocket" where
  "send command s =
     (case (if ws_open s then ws s else None) of
        Some i \<Rightarrow> (True, s\<lparr>wire := wire s @ [(i, command)]\<rparr>)
      | None \<Rightarrow>
          (if reconnect (options s)
           then (False, s\<lparr>messageQueue := messageQueue s @ [command]\<rparr>)
           else (False, s)))"

text \<open>
  \<open>flushMessageQueue\<close>: the while loop, one iteration per unfolding. The loop has no bound
  in the source, so the function is partial: \<open>None\<close> is a call that never returns.
\<close>

partial_function (option) flushMessageQueue :: "AxiomWebSocket \<Rightarrow> AxiomWebSocket option" where
  "flushMessageQueue s =
     (case messageQueue s of
        [] \<Rightarrow> Some s
      | command # rest \<Rightarrow> flushMessageQueue (snd (send command (s\<lparr>messageQueue := rest\<rparr>))))"

declare flushMessageQueue.simps [code]

text \<open>A callback running: each command it sends goes through \<open>send\<close>, in turn.\<close>

definition callback_sends :: "Command list \<Rightarrow> AxiomWebSocket \<Rightarrow> AxiomWebSocket" where
  "callback_sends commands s = fold (\<lambda>command s'. snd (send command s')) commands s"

text \<open>\<open>setState\<close>: store the state, then run the caller's callback.\<close>

definition setState :: "ConnectionState \<Rightarrow> AxiomWebSocket \<Rightarrow> AxiomWebSocket" where
  "setState st s = callback_sends (onStateChange (options s) st) (s\<lparr>state := st\<rparr>)"

definition handleError :: "AxiomWebSocket \<Rightarrow> AxiomWebSocket" where
  "handleError s = setState Errored s"

definition clearReconnectTimer :: "AxiomWebSocket \<Rightarrow> AxiomWebSocket" where
  "clearReconnectTimer s =
     (case reconnectTimer s of
        None \<Rightarrow> s
      | Some _ \<Rightarrow> s\<lparr>timerArmed := False, reconnectTimer := None\<rparr>)"

definition scheduleReconnect :: "AxiomWebSocket \<Rightarrow> AxiomWebSocket" where
  "scheduleReconnect s =
     (if reconnectAttempts s \<ge> maxReconnectAttempts (options s) then s
      else
        let s1 = clearReconnectTimer s;
            delay = reconnectInterval (options s1) * 2 ^ reconnectAttempts s1;
            s2 = s1\<lparr>reconnectAttempts := reconnectAttempts s1 + 1\<rparr>
        in s2\<lparr>timeouts := timeouts s2 @ [delay], timerArmed := True,
              reconnectTimer := Some delay\<rparr>)"

text \<open>
  \<open>connect\<close>. The flag says whether \<open>new WebSocket(url)\<close> throws; when it does not, the
  new socket is in state CONNECTING and \<open>setupEventHandlers\<close> attaches the handlers below
  to it. A socket that is being replaced keeps its handlers.
\<close>

definition connect :: "bool \<Rightarrow> AxiomWebSocket \<Rightarrow> AxiomWebSocket" where
  "connect throws s =
     (if ws_open s then s
      else
        let s1 = setState Connecting s in
        if throws then handleError s1
        else s1\<lparr>sockets := (sockets s1)(nsockets s1 \<mapsto> CONNECTING),
                nsockets := nsockets s1 + 1,
                ws := Some (nsockets s1)\<rparr>)"

text \<open>\<open>WebSocket.close\<close>: a socket that is connecting or open starts closing.\<close>

definition close_socket :: "nat \<Rightarrow> (nat \<Rightarrow> ReadyState option) \<Rightarrow> (nat \<Rightarrow> ReadyState option)" where
  "close_socket i m =
     (case m i of
        Some CONNECTING \<Rightarrow> m(i \<mapsto> CLOSING)
      | Some OPEN \<Rightarrow> m(i \<mapsto> CLOSING)
      | _ \<Rightarrow> m)"

definition disconnect :: "AxiomWebSocket \<Rightarrow> AxiomWebSocket" where
  "disconnect s =
     (let s1 = s\<lparr>options := (options s)\<lparr>reconnect := False\<rparr>\<rparr>;
          s2 = clearReconnectTimer s1;
          s3 = (case ws s2 of
                  None \<Rightarrow> s2
                | Some i \<Rightarrow> s2\<lparr>sockets := close_socket i (sockets s2), ws := None\<rparr>)
      in setState Disconnected s3)"

text \<open>The handlers that \<open>setupEventHandlers\<close> attaches to a socket.\<close>

definition onopen :: "AxiomWebSocket \<Rightarrow> AxiomWebSocket option" where
  "onopen s =
     (let s1 = setState Connected s;
          s2 = s1\<lparr>reconnectAttempts := 0\<rparr>
      in flushMessageQueue s2)"

definition onclose :: "bool \<Rightarrow> AxiomWebSocket \<Rightarrow> AxiomWebSocket" where
  "onclose wasClean s =
     (let s1 = setState Disconnected s in
      if reconnect (options s1) \<and> \<not> wasClean then scheduleReconnect s1 else s1)"

definition onerror :: "AxiomWebSocket \<Rightarrow> AxiomWebSocket" where
  "onerror s = handleError s"

text \<open>
  What can happen to a client: a call of a public method, or an event of the browser.
  A socket opens only while it is connecting, and the browser sets its \<open>readyState\<close> before
  it runs the handler; a timeout fires only while it is armed, and runs \<open>connect\<close>.
  An event that cannot happen in the current state leaves it unchanged. The result
  \<open>None\<close> is a handler that never returns.
\<close>

datatype event =
    Connect bool
  | Disconnect
  | Send Command
  | SockOpen nat
  | SockClose nat bool
  | SockError nat
  | TimerFire bool

fun step :: "event \<Rightarrow> AxiomWebSocket \<Rightarrow> AxiomWebSocket option" where
  "step (Connect throws) s = Some (connect throws s)"
| "step Disconnect s = Some (disconnect s)"
| "step (Send command) s = Some (snd (send command s))"
| "step (SockOpen i) s =
     (if sockets s i = Some CONNECTING
      then onopen (s\<lparr>sockets := (sockets s)(i \<mapsto> OPEN)\<rparr>)
      else Some s)"
| "step (SockClose i wasClean) s =
     (if sockets s i = None \<or> sockets s i = Some CLOSED then Some s
      else Some (onclose wasClean (s\<lparr>sockets := (sockets s)(i \<mapsto> CLOSED)\<rparr>)))"
| "step (SockError i) s =
     (if sockets s i = None then Some s else Some (onerror s))"
| "step (TimerFire throws) s =
     (if timerArmed s then Some (connect throws (s\<lparr>timerArmed := False\<rparr>)) else Some s)"

fun run :: "event list \<Rightarrow> AxiomWebSocket \<Rightarrow> AxiomWebSocket option" where
  "run [] s = Some s"
| "run (e # es) s = (case step e s of None \<Rightarrow> None | Some s' \<Rightarrow> run es s')"

text \<open>The commands handed to \<open>WebSocket.send\<close> so far, in the order of the calls.\<close>

definition transmitted :: "AxiomWebSocket \<Rightarrow> Command list" where
  "transmitted s = map snd (wire s)"

text \<open>The commands passed to \<open>send\<close> by the caller along a run, in call order.\<close>

fun sends :: "event list \<Rightarrow> Command list" where
  "sends [] = []"
| "sends (Send command # es) = command # sends es"
| "sends (_ # es) = sends es"


text \<open>Two states used as examples: a connected client, and one out of attempts.\<close>

definition open_client :: AxiomWebSocket where
  "open_client =
     \<lparr>sockets = [0 \<mapsto> OPEN], nsockets = 1, wire = [], timeouts = [], timerArmed = False,
      ws = Some 0, options = DEFAULT_OPTIONS, state = Connected, reconnectAttempts = 0,
      reconnectTimer = None, messageQueue = []\<rparr>"


text \<open>
  Options used as an example: the defaults, with a callback that sends a command when it
  is told that the client is connected.
\<close>

definition announcing_options :: WebSocketClientOptions where
  "announcing_options =
     DEFAULT_OPTIONS\<lparr>onStateChange :=
       (\<lambda>st. if st = Connected then [ProcessInput ''second''] else [])\<rparr>"

section \<open>The configuration file (workspace-config.ts, src/unnamed/part_004)\<close>

datatype WorkspaceType = Local | Remote

text \<open>
  \<open>WorkspaceConfig\<close>, \<open>LLMProvider\<close>, \<open>AgentMapping\<close> and \<open>AppConfig\<close>. The fields \<open>id\<close>,
  \<open>type\<close> and \<open>name\<close> carry a suffix; a field that may be missing (\<open>baseUrl?\<close>) is an
  option.
\<close>

record WorkspaceConfig =
  id_w :: string
  title :: string
  path :: string
  type_w :: WorkspaceType
  lastAccessed :: string
  createdAt :: string

record LLMProvider =
  id_p :: string
  name_p :: string
  apiKey :: string
  baseUrl :: "string option"
  defaultModel :: string
  enabled :: bool

record AgentMapping =
  agentId :: string
  providerId :: string
  modelId :: string

record LLMSettings =
  providers :: "LLMProvider list"
  agentMappings :: "AgentMapping list"

record AppConfig =
  workspaces :: "WorkspaceConfig list"
  llmSettings :: LLMSettings

definition DEFAULT_CONFIG :: AppConfig where
  "DEFAULT_CONFIG =
     \<lparr>workspaces = [],
      llmSettings =
        \<lparr>providers =
           [\<lparr>id_p = ''openai'', name_p = ''OpenAI'', apiKey = '''', baseUrl = None,
             defaultModel = ''gpt-4o'', enabled = False\<rparr>,
            \<lparr>id_p = ''anthropic'', name_p = ''Anthropic'', apiKey = '''', baseUrl = None,
             defaultModel = ''claude-3-5-sonnet-20240620'', enabled = False\<rparr>,
            \<lparr>id_p = ''gemini'', name_p = ''Google Gemini'', apiKey = '''', baseUrl = None,
             defaultModel = ''gemini-1.5-pro'', enabled = False\<rparr>,
            \<lparr>id_p = ''ollama'', name_p = ''Ollama (Local)'', apiKey = ''na'',
             baseUrl = Some ''http://localhost:11434'', defaultModel = ''llama3'',
             enabled = False\<rparr>],
         agentMappings =
           [\<lparr>agentId = ''orchestrator'', providerId = ''openai'', modelId = ''gpt-4o''\<rparr>,
            \<lparr>agentId = ''po'', providerId = ''openai'', modelId = ''gpt-4o''\<rparr>,
            \<lparr>agentId = ''architect'', providerId = ''openai'', modelId = ''gpt-4o''\<rparr>,
            \<lparr>agentId = ''developer'', providerId = ''openai'', modelId = ''gpt-4o''\<rparr>]\<rparr>\<rparr>"

text \<open>
  What \<open>JSON.parse\<close> finds in the file: every key may be missing. The file itself is
  absent (\<open>ENOENT\<close>), unreadable (any other error of \<open>ensureConfigDir\<close>, \<open>fs.readFile\<close> or
  \<open>JSON.parse\<close>), or has content.
\<close>

record ParsedLLMSettings =
  providers_j :: "LLMProvider list option"
  agentMappings_j :: "AgentMapping list option"

record ParsedConfig =
  workspaces_j :: "WorkspaceConfig list option"
  llmSettings_j :: "ParsedLLMSettings option"

datatype ConfigFile = Absent | Unreadable | Content ParsedConfig

datatype io_error = ReadError | WriteError

text \<open>
  The store the module works on: the file, whether it can be written, and the current
  contents of the object \<open>DEFAULT_CONFIG\<close>. The last is state because \<open>readConfig\<close>
  hands the object itself, or its arrays, to its callers, who change them in place.
\<close>

record ConfigStore =
  configFile :: ConfigFile
  writable :: bool
  defaults :: AppConfig

definition initial_store :: ConfigStore where
  "initial_store = \<lparr>configFile = Absent, writable = True, defaults = DEFAULT_CONFIG\<rparr>"

text \<open>
  What the \<open>workspaces\<close> array of the object returned by \<open>readConfig\<close> is: the whole
  object is \<open>DEFAULT_CONFIG\<close> (file absent), or the object is new and its array is the
  one of \<open>DEFAULT_CONFIG\<close> (the file has no \<open>workspaces\<close> key), or the array is new.
\<close>

datatype sharing = DefaultObject | DefaultArray | Fresh

definition readConfig :: "ConfigStore \<Rightarrow> io_error + (AppConfig \<times> sharing)" where
  "readConfig st =
     (case configFile st of
        Absent \<Rightarrow> Inr (defaults st, DefaultObject)
      | Unreadable \<Rightarrow> Inl ReadError
      | Content parsed \<Rightarrow>
          let d = llmSettings (defaults st);
              l = (case llmSettings_j parsed of
                     None \<Rightarrow> d
                   | Some pl \<Rightarrow>
                       \<lparr>providers = (case providers_j pl of None \<Rightarrow> providers d | Some ps \<Rightarrow> ps),
                        agentMappings =
                          (case agentMappings_j pl of None \<Rightarrow> agentMappings d | Some ms \<Rightarrow> ms)\<rparr>)
          in (case workspaces_j parsed of
                None \<Rightarrow> Inr (\<lparr>workspaces = workspaces (defaults st), llmSettings = l\<rparr>, DefaultArray)
              | Some wl \<Rightarrow> Inr (\<lparr>workspaces = wl, llmSettings = l\<rparr>, Fresh)))"

text \<open>\<open>writeConfig\<close>: the file then holds the JSON text of the whole object.\<close>

definition writeConfig :: "AppConfig \<Rightarrow> ConfigStore \<Rightarrow> io_error + ConfigStore" where
  "writeConfig config st =
     (if writable st
      then Inr (st\<lparr>configFile :=
             Content \<lparr>workspaces_j = Some (workspaces config),
                      llmSettings_j =
                        Some \<lparr>providers_j = Some (providers (llmSettings config)),
                              agentMappings_j = Some (agentMappings (llmSettings config))\<rparr>\<rparr>\<rparr>)
      else Inl WriteError)"

definition getWorkspaceById :: "string \<Rightarrow> ConfigStore \<Rightarrow> io_error + WorkspaceConfig option" where
  "getWorkspaceById i st =
     (case readConfig st of
        Inl e \<Rightarrow> Inl e
      | Inr (config, _) \<Rightarrow> Inr (find (\<lambda>w. id_w w = i) (workspaces config)))"

text \<open>
  The argument of \<open>addWorkspace\<close>: a \<open>WorkspaceConfig\<close> without \<open>id\<close>, \<open>createdAt\<close> and
  \<open>lastAccessed\<close>.
\<close>

record NewWorkspace =
  title_n :: string
  path_n :: string
  type_n :: WorkspaceType

text \<open>
  \<open>addWorkspace\<close>. The values of \<open>crypto.randomUUID()\<close> and of the two
  \<open>new Date().toISOString()\<close> are arguments. \<open>push\<close> changes the array in place: when
  the array is the one of \<open>DEFAULT_CONFIG\<close>, that object changes too.
\<close>

definition addWorkspace ::
  "NewWorkspace \<Rightarrow> string \<Rightarrow> string \<Rightarrow> string \<Rightarrow> ConfigStore
     \<Rightarrow> (io_error + WorkspaceConfig) \<times> ConfigStore" where
  "addWorkspace workspace uuid created accessed st =
     (case readConfig st of
        Inl e \<Rightarrow> (Inl e, st)
      | Inr (config, sh) \<Rightarrow>
          let newWorkspace =
                \<lparr>id_w = uuid, title = title_n workspace, path = path_n workspace,
                 type_w = type_n workspace, lastAccessed = accessed, createdAt = created\<rparr>;
              config1 = config\<lparr>workspaces := workspaces config @ [newWorkspace]\<rparr>;
              st1 = (if sh = Fresh then st
                     else st\<lparr>defaults :=
                            (defaults st)\<lparr>workspaces := workspaces (defaults st) @ [newWorkspace]\<rparr>\<rparr>)
          in (case writeConfig config1 st1 of
                Inl e \<Rightarrow> (Inl e, st1)
              | Inr st2 \<Rightarrow> (Inr newWorkspace, st2)))"

text \<open>
  \<open>removeWorkspace\<close> assigns the filtered array to \<open>config.workspaces\<close>: this changes
  \<open>DEFAULT_CONFIG\<close> only when \<open>config\<close> is that object.
\<close>

definition removeWorkspace :: "string \<Rightarrow> ConfigStore \<Rightarrow> (io_error + unit) \<times> ConfigStore" where
  "removeWorkspace i st =
     (case readConfig st of
        Inl e \<Rightarrow> (Inl e, st)
      | Inr (config, sh) \<Rightarrow>
          let kept = filter (\<lambda>w. id_w w \<noteq> i) (workspaces config);
              config1 = config\<lparr>workspaces := kept\<rparr>;
              st1 = (if sh = DefaultObject
                     then st\<lparr>defaults := (defaults st)\<lparr>workspaces := kept\<rparr>\<rparr>
                     else st)
          in (case writeConfig config1 st1 of
                Inl e \<Rightarrow> (Inl e, st1)
              | Inr st2 \<Rightarrow> (Inr (), st2)))"

definition getLLMSettings :: "ConfigStore \<Rightarrow> io_error + LLMSettings" where
  "getLLMSettings st =
     (case readConfig st of
        Inl e \<Rightarrow> Inl e
      | Inr (config, _) \<Rightarrow> Inr (llmSettings config))"

section \<open>The LLM client (src/unnamed/part_004, llm/api.ts)\<close>

datatype Role = System | User | Assistant

text \<open>
  \<open>LLMMessage\<close>. The type of the content is a parameter: the code here passes it on
  without looking at it, and the chat page below needs it as UTF-16 code units.
\<close>

record 'c LLMMessage =
  role :: Role
  content :: 'c

text \<open>
  What \<open>chatCompletion\<close> can end in before any request is made: the read of the
  configuration fails, or one of its own three \<open>throw\<close> statements runs (the argument is
  the message of the \<open>Error\<close>).
\<close>

datatype chat_error = ConfigError io_error | Thrown string

text \<open>
  The call \<open>chatCompletion\<close> dispatches to, with its arguments in the order of the
  source: \<open>callOpenAI(apiKey, model, messages, baseUrl)\<close>,
  \<open>callAnthropic(apiKey, model, messages)\<close>, \<open>callGemini(apiKey, model, messages)\<close>,
  \<open>callOllama(baseUrl, model, messages)\<close>.
\<close>

datatype 'c provider_call =
    callOpenAI string string "'c LLMMessage list" "string option"
  | callAnthropic string string "'c LLMMessage list"
  | callGemini string string "'c LLMMessage list"
  | callOllama string string "'c LLMMessage list"

text \<open>\<open>a || b\<close> on strings: the empty string is falsy.\<close>

definition or_else :: "string \<Rightarrow> string \<Rightarrow> string" where
  "or_else a b = (if a = [] then b else a)"

definition chatCompletion ::
  "string \<Rightarrow> 'c LLMMessage list \<Rightarrow> ConfigStore \<Rightarrow> chat_error + 'c provider_call" where
  "chatCompletion agent messages st =
     (case getLLMSettings st of
        Inl e \<Rightarrow> Inl (ConfigError e)
      | Inr settings \<Rightarrow>
          (case find (\<lambda>m. agentId m = agent) (agentMappings settings) of
             None \<Rightarrow> Inl (Thrown (''No mapping found for agent: '' @ agent))
           | Some mapping \<Rightarrow>
               (case find (\<lambda>p. id_p p = providerId mapping) (providers settings) of
                  None \<Rightarrow>
                    Inl (Thrown (''Provider '' @ providerId mapping @ '' is not configured or enabled''))
                | Some provider \<Rightarrow>
                    if \<not> enabled provider \<or> apiKey provider = []
                    then Inl (Thrown (''Provider '' @ providerId mapping
                                        @ '' is not configured or enabled''))
                    else
                      let model = or_else (modelId mapping) (defaultModel provider) in
                      if id_p provider = ''openai''
                      then Inr (callOpenAI (apiKey provider) model messages (baseUrl provider))
                      else if id_p provider = ''anthropic''
                      then Inr (callAnthropic (apiKey provider) model messages)
                      else if id_p provider = ''gemini''
                      then Inr (callGemini (apiKey provider) model messages)
                      else if id_p provider = ''ollama''
                      then Inr (callOllama
                                  (case baseUrl provider of
                                     None \<Rightarrow> ''http://localhost:11434''
                                   | Some u \<Rightarrow> or_else u ''http://localhost:11434'')
                                  model messages)
                      else Inl (Thrown (''Unsupported provider: '' @ id_p provider)))))"

text \<open>The provider a call goes to, its model and its messages.\<close>

fun call_provider :: "'c provider_call \<Rightarrow> string" where
  "call_provider (callOpenAI _ _ _ _) = ''openai''"
| "call_provider (callAnthropic _ _ _) = ''anthropic''"
| "call_provider (callGemini _ _ _) = ''gemini''"
| "call_provider (callOllama _ _ _) = ''ollama''"

fun call_model :: "'c provider_call \<Rightarrow> string" where
  "call_model (callOpenAI _ m _ _) = m"
| "call_model (callAnthropic _ m _) = m"
| "call_model (callGemini _ m _) = m"
| "call_model (callOllama _ m _) = m"

fun call_messages :: "'c provider_call \<Rightarrow> 'c LLMMessage list" where
  "call_messages (callOpenAI _ _ ms _) = ms"
| "call_messages (callAnthropic _ _ ms) = ms"
| "call_messages (callGemini _ _ ms) = ms"
| "call_messages (callOllama _ _ ms) = ms"

definition supported_providers :: "string list" where
  "supported_providers = [''openai'', ''anthropic'', ''gemini'', ''ollama'']"

text \<open>
  A store used as an example: the file enables the Ollama provider and maps the
  developer agent to it, with no model id of its own.
\<close>

definition ollama_settings :: LLMSettings where
  "ollama_settings =
     \<lparr>providers =
        [\<lparr>id_p = ''ollama'', name_p = ''Ollama (Local)'', apiKey = ''na'',
          baseUrl = Some ''http://localhost:11434'', defaultModel = ''llama3'',
          enabled = True\<rparr>],
      agentMappings = [\<lparr>agentId = ''developer'', providerId = ''ollama'', modelId = ''''\<rparr>]\<rparr>"

definition ollama_store :: ConfigStore where
  "ollama_store =
     \<lparr>configFile =
        Content \<lparr>workspaces_j = Some [],
                 llmSettings_j =
                   Some \<lparr>providers_j = Some (providers ollama_settings),
                         agentMappings_j = Some (agentMappings ollama_settings)\<rparr>\<rparr>,
      writable = True, defaults = DEFAULT_CONFIG\<rparr>"

section \<open>The server actions (src/web/src/app/actions/agent.ts, terminal.ts)\<close>


















section \<open>The workspace page (src/unnamed/part_005, second version) and its agent states\<close>

text \<open>
  \<open>AgentRole\<close> and \<open>AgentState\<close> of src/web/src/lib/agents/types.ts. A status is the
  string it is at run time: the declared type of \<open>AgentState.status\<close> allows
  \<open>idle\<close>, \<open>thinking\<close>, \<open>working\<close> and \<open>waiting\<close>, and \<open>AgentStatus\<close> of
  src/web/src/lib/api/types.ts (src/unnamed/part_003) allows \<open>pending\<close>, \<open>running\<close>,
  \<open>completed\<close>, \<open>failed\<close> and \<open>cancelled\<close>.
\<close>

datatype AgentRole = Orchestrator | Po | Architect | Developer

record AgentState =
  id_a :: AgentRole
  name_a :: string
  status :: string
  currentTask :: "string option"
  lastMessage :: "string option"

definition AgentState_status_values :: "string list" where
  "AgentState_status_values = [''idle'', ''thinking'', ''working'', ''waiting'']"

definition AgentStatus_values :: "string list" where
  "AgentStatus_values = [''pending'', ''running'', ''completed'', ''failed'', ''cancelled'']"


text \<open>The initial value of the state \<open>agentStates\<close>.\<close>

fun initial_agentStates :: "AgentRole \<Rightarrow> AgentState" where
  "initial_agentStates Orchestrator =
     \<lparr>id_a = Orchestrator, name_a = ''Orchestrator'', status = ''idle'',
      currentTask = None, lastMessage = None\<rparr>"
| "initial_agentStates Po =
     \<lparr>id_a = Po, name_a = ''Product Owner'', status = ''idle'',
      currentTask = None, lastMessage = None\<rparr>"
| "initial_agentStates Architect =
     \<lparr>id_a = Architect, name_a = ''Architect'', status = ''idle'',
      currentTask = None, lastMessage = None\<rparr>"
| "initial_agentStates Developer =
     \<lparr>id_a = Developer, name_a = ''Developer'', status = ''idle'',
      currentTask = None, lastMessage = None\<rparr>"

text \<open>
  \<open>updateAgentStatus\<close>: the function given to \<open>setAgentStates\<close>, applied to the previous
  value. An omitted \<open>message\<close> is \<open>None\<close>.
\<close>

definition updateAgentStatus ::
  "AgentRole \<Rightarrow> string \<Rightarrow> string option \<Rightarrow> (AgentRole \<Rightarrow> AgentState) \<Rightarrow> (AgentRole \<Rightarrow> AgentState)" where
  "updateAgentStatus r new_status msg prev =
     prev(r := (prev r)\<lparr>status := new_status, lastMessage := msg\<rparr>)"




text \<open>
  A string of the page is a list of UTF-16 code units. \<open>trim\<close> removes the white space
  and line terminators of ECMAScript from both ends.
\<close>

type_synonym jsstring = "nat list"

definition is_whitespace :: "nat \<Rightarrow> bool" where
  "is_whitespace c =
     (c = 9 \<or> c = 10 \<or> c = 11 \<or> c = 12 \<or> c = 13 \<or> c = 32 \<or> c = 160 \<or> c = 5760
      \<or> (8192 \<le> c \<and> c \<le> 8202) \<or> c = 8232 \<or> c = 8233 \<or> c = 8239 \<or> c = 8287
      \<or> c = 12288 \<or> c = 65279)"

definition trim :: "jsstring \<Rightarrow> jsstring" where
  "trim s = rev (dropWhile is_whitespace (rev (dropWhile is_whitespace s)))"

definition startsWith :: "jsstring \<Rightarrow> jsstring \<Rightarrow> bool" where
  "startsWith s p = (take (length p) s = p)"

text \<open>The code unit of \<open>/\<close>.\<close>

definition slash :: nat where
  "slash = 47"

record FileEntry =
  name_f :: jsstring
  path_f :: jsstring
  is_directory :: bool
  size_f :: nat

text \<open>The state of the page that \<open>handleSendMessage\<close> reads and sets.\<close>

record WorkspaceStudio =
  messages :: "jsstring LLMMessage list"
  inputValue :: jsstring
  activeFile :: "FileEntry option"
  agentStates :: "AgentRole \<Rightarrow> AgentState"

text \<open>
  Where a submitted input goes: nowhere, to \<open>slashCommandAction\<close> with the command, or to
  \<open>orchestrateAction\<close> with the messages.
\<close>

datatype dispatch =
    NoDispatch
  | ToSlashCommand jsstring
  | ToOrchestrator "jsstring LLMMessage list"

text \<open>\<open>handleSlashCommand\<close>, up to its call of \<open>slashCommandAction\<close>.\<close>

definition handleSlashCommand :: "jsstring \<Rightarrow> WorkspaceStudio \<Rightarrow> dispatch \<times> WorkspaceStudio" where
  "handleSlashCommand command s =
     (let s1 = s\<lparr>inputValue := []\<rparr>;
          s2 = s1\<lparr>messages := messages s1 @ [\<lparr>role = User, content = command\<rparr>]\<rparr>
      in (ToSlashCommand command, s2))"

text \<open>
  \<open>handleSendMessage\<close>, up to its first call of an action: the test of the input, the
  slash command, or the user message, the state changes and \<open>orchestrateAction\<close>.
\<close>

definition handleSendMessage :: "WorkspaceStudio \<Rightarrow> dispatch \<times> WorkspaceStudio" where
  "handleSendMessage s =
     (if trim (inputValue s) = [] then (NoDispatch, s)
      else if startsWith (trim (inputValue s)) [slash]
      then handleSlashCommand (trim (inputValue s)) s
      else
        let userMsg = \<lparr>role = User, content = inputValue s\<rparr>;
            s1 = (if activeFile s \<noteq> None then s\<lparr>activeFile := None\<rparr> else s);
            s2 = s1\<lparr>messages := messages s1 @ [userMsg]\<rparr>;
            s3 = s2\<lparr>inputValue := []\<rparr>;
            s4 = s3\<lparr>agentStates :=
                     updateAgentStatus Orchestrator ''thinking'' (Some ''Analyzing request...'')
                       (agentStates s3)\<rparr>
        in (ToOrchestrator (messages s @ [userMsg]), s4))"

text \<open>A page used as an example: nothing in the chat, no file open.\<close>

definition empty_page :: "jsstring \<Rightarrow> WorkspaceStudio" where
  "empty_page input =
     \<lparr>messages = [], inputValue = input, activeFile = None,
      agentStates = initial_agentStates\<rparr>"

section \<open>The PTY output parser (spec 3, 4.2 and 7; its code is not among the sources)\<close>

text \<open>
  The sources hold the web client only: of the PTY session they have the declarations
  \<open>PtyOutput\<close> (a list of bytes), \<open>TerminalScreen\<close> and \<open>TerminalLine\<close>
  of src/web/src/lib/api/types.ts. The parser that turns the bytes into a grid is
  modelled from the spec's words, cited at each definition. A byte is a natural number.
\<close>

text \<open>
  Modelled from the spec: the missing grid cell, ``cells with character +
  foreground/background attributes'' (3, PtySession). An attribute that is not set is
  \<open>None\<close>.
\<close>

record cell =
  glyph :: nat
  fg :: "nat option"
  bg :: "nat option"

text \<open>Modelled from the spec: the missing empty cell of a cleared line, a space.\<close>

definition blank :: cell where
  "blank = \<lparr>glyph = 32, fg = None, bg = None\<rparr>"

text \<open>
  Modelled from the spec: the missing state of the terminal-emulation parser, ``screen
  buffer: 2D grid of cells with character + foreground/background attributes, cursor
  position, scrollback'' (3), with the ``scroll region'' and the colours in force (4.2),
  and the buffer of a partial sequence, ``buffer partial sequences across calls'' (4.2).
\<close>

record emulator =
  cols :: nat
  rows :: nat
  grid :: "cell list list"
  scrollback :: "cell list list"
  cursor_row :: nat
  cursor_col :: nat
  cur_fg :: "nat option"
  cur_bg :: "nat option"
  region_top :: nat
  region_bottom :: nat
  pending :: "nat list"

text \<open>
  Modelled from the spec: the missing construction of the parser for a session spawned
  with \<open>initial_cols\<close> and \<open>initial_rows\<close> (4.2): an empty grid of that size, the
  cursor at the top left, the whole screen as scroll region.
\<close>

definition new_emulator :: "nat \<Rightarrow> nat \<Rightarrow> emulator" where
  "new_emulator c r =
     \<lparr>cols = c, rows = r, grid = replicate r (replicate c blank), scrollback = [],
      cursor_row = 0, cursor_col = 0, cur_fg = None, cur_bg = None,
      region_top = 0, region_bottom = r - 1, pending = []\<rparr>"

text \<open>
  Modelled from the spec: the missing scrolling of the ``scroll region'' (4.2): its top
  line leaves, an empty line enters at its bottom, and a line that leaves the top of the
  screen goes to the ``scrollback'' (3).
\<close>

definition scroll_up :: "emulator \<Rightarrow> emulator" where
  "scroll_up t =
     (if region_top t \<le> region_bottom t \<and> region_bottom t < length (grid t)
      then
        let above = take (region_top t) (grid t);
            gone = grid t ! region_top t;
            kept = take (region_bottom t - region_top t) (drop (region_top t + 1) (grid t));
            below = drop (region_bottom t + 1) (grid t)
        in t\<lparr>grid := above @ kept @ [replicate (cols t) blank] @ below,
             scrollback := (if region_top t = 0 then scrollback t @ [gone] else scrollback t)\<rparr>
      else t)"

text \<open>
  Modelled from the spec: the missing line feed: the cursor goes down a line, and at
  the bottom of the scroll region the region scrolls instead (4.2).
\<close>

definition line_feed :: "emulator \<Rightarrow> emulator" where
  "line_feed t =
     (if cursor_row t = region_bottom t then scroll_up t
      else if cursor_row t + 1 < rows t then t\<lparr>cursor_row := cursor_row t + 1\<rparr>
      else t)"

text \<open>
  Modelled from the spec: the missing printing of a character, with ``line wrap'' (4.2):
  past the last column the cursor first goes to the start of the next line. The cell
  takes the colours in force.
\<close>

definition put_char :: "nat \<Rightarrow> emulator \<Rightarrow> emulator" where
  "put_char b t =
     (let t1 = (if cursor_col t \<ge> cols t then line_feed (t\<lparr>cursor_col := 0\<rparr>) else t);
          c = \<lparr>glyph = b, fg = cur_fg t1, bg = cur_bg t1\<rparr>
      in if cursor_row t1 < length (grid t1)
         then t1\<lparr>grid := (grid t1)[cursor_row t1 := (grid t1 ! cursor_row t1)[cursor_col t1 := c]],
                 cursor_col := cursor_col t1 + 1\<rparr>
         else t1\<lparr>cursor_col := cursor_col t1 + 1\<rparr>)"

text \<open>
  Modelled from the spec: the missing handling of a byte outside an escape sequence:
  line feed, carriage return and backspace move the cursor, every other byte is printed,
  ``treat unknown bytes as literal'' (7).
\<close>

definition plain_byte :: "nat \<Rightarrow> emulator \<Rightarrow> emulator" where
  "plain_byte b t =
     (if b = 10 then line_feed t
      else if b = 13 then t\<lparr>cursor_col := 0\<rparr>
      else if b = 8 then t\<lparr>cursor_col := cursor_col t - 1\<rparr>
      else put_char b t)"

text \<open>
  Modelled from the spec: the missing control-sequence set, ``cursor movement,
  color/attribute escapes, line wrap, scroll region'' (4.2): the sequences ESC [ ... A,
  B, C, D and H, ESC [ ... m, and ESC [ ... r.
\<close>

datatype action =
    CursorUp nat
  | CursorDown nat
  | CursorForward nat
  | CursorBack nat
  | CursorPosition nat nat
  | SetAttributes "nat list"
  | SetScrollRegion nat nat

text \<open>
  Modelled from the spec: the missing effect of one colour/attribute parameter: 0
  resets, 30 to 37 and 40 to 47 set foreground and background, 39 and 49 unset them.
\<close>

definition set_attribute :: "nat \<Rightarrow> emulator \<Rightarrow> emulator" where
  "set_attribute p t =
     (if p = 0 then t\<lparr>cur_fg := None, cur_bg := None\<rparr>
      else if 30 \<le> p \<and> p \<le> 37 then t\<lparr>cur_fg := Some (p - 30)\<rparr>
      else if p = 39 then t\<lparr>cur_fg := None\<rparr>
      else if 40 \<le> p \<and> p \<le> 47 then t\<lparr>cur_bg := Some (p - 40)\<rparr>
      else if p = 49 then t\<lparr>cur_bg := None\<rparr>
      else t)"

text \<open>
  Modelled from the spec: the missing effect of a complete control sequence on the
  parser state: the cursor stays on the screen, and a scroll region that is not a range
  of lines of the screen is ignored.
\<close>

fun perform :: "action \<Rightarrow> emulator \<Rightarrow> emulator" where
  "perform (CursorUp n) t = t\<lparr>cursor_row := cursor_row t - n\<rparr>"
| "perform (CursorDown n) t = t\<lparr>cursor_row := min (rows t - 1) (cursor_row t + n)\<rparr>"
| "perform (CursorForward n) t = t\<lparr>cursor_col := min (cols t - 1) (cursor_col t + n)\<rparr>"
| "perform (CursorBack n) t = t\<lparr>cursor_col := cursor_col t - n\<rparr>"
| "perform (CursorPosition r c) t =
     t\<lparr>cursor_row := min (rows t - 1) (r - 1), cursor_col := min (cols t - 1) (c - 1)\<rparr>"
| "perform (SetAttributes ps) t = fold set_attribute ps t"
| "perform (SetScrollRegion lo hi) t =
     (if 1 \<le> lo \<and> lo < hi \<and> hi \<le> rows t
      then t\<lparr>region_top := lo - 1, region_bottom := hi - 1,
              cursor_row := 0, cursor_col := 0\<rparr>
      else t)"

text \<open>
  Modelled from the spec: the missing reading of the parameters of a control sequence:
  decimal numbers separated by semicolons.
\<close>

fun params_acc :: "nat \<Rightarrow> nat list \<Rightarrow> nat list" where
  "params_acc n [] = [n]"
| "params_acc n (b # bs) =
     (if b = 59 then n # params_acc 0 bs else params_acc (10 * n + (b - 48)) bs)"

text \<open>Modelled from the spec: the missing test for a parameter byte, a digit or a semicolon.\<close>

definition is_param :: "nat \<Rightarrow> bool" where
  "is_param b = ((48 \<le> b \<and> b \<le> 57) \<or> b = 59)"

text \<open>
  Modelled from the spec: the missing default of a parameter: a missing or zero count
  is one.
\<close>

definition param :: "nat list \<Rightarrow> nat \<Rightarrow> nat" where
  "param ps i = (if i < length ps \<and> ps ! i \<noteq> 0 then ps ! i else 1)"

text \<open>
  Modelled from the spec: the missing choice of the action by the final byte of a
  control sequence; a final byte outside the set gives none.
\<close>

definition csi_action :: "nat list \<Rightarrow> nat \<Rightarrow> action option" where
  "csi_action ps final =
     (if final = 65 then Some (CursorUp (param ps 0))
      else if final = 66 then Some (CursorDown (param ps 0))
      else if final = 67 then Some (CursorForward (param ps 0))
      else if final = 68 then Some (CursorBack (param ps 0))
      else if final = 72 then Some (CursorPosition (param ps 0) (param ps 1))
      else if final = 109 then Some (SetAttributes ps)
      else if final = 114 then Some (SetScrollRegion (param ps 0) (param ps 1))
      else None)"

text \<open>
  Modelled from the spec: the missing recognition of an escape sequence in the bytes
  that follow ESC: it is complete (with the bytes after it), or ``truncated'' so far, or
  ``malformed'' (4.2, 7).
\<close>

datatype recognized = Complete action "nat list" | Incomplete | Malformed

definition parse_escape :: "nat list \<Rightarrow> recognized" where
  "parse_escape bs =
     (case bs of
        [] \<Rightarrow> Incomplete
      | b # after \<Rightarrow>
          if b = 91
          then (case dropWhile is_param after of
                  [] \<Rightarrow> Incomplete
                | final # rest \<Rightarrow>
                    (case csi_action (params_acc 0 (takeWhile is_param after)) final of
                       Some a \<Rightarrow> Complete a rest
                     | None \<Rightarrow> Malformed))
          else Malformed)"

text \<open>
  Modelled from the spec: the missing pass of the parser over the bytes it holds. A
  complete sequence is performed; a truncated one is kept, ``buffer partial sequences
  across calls'' (4.2); a malformed one is recovered from ``by resetting the parser to a
  safe state (treat unknown bytes as literal)'' (7): its ESC is printed and the pass goes
  on after it.
\<close>

function consume :: "emulator \<Rightarrow> nat list \<Rightarrow> emulator" where
  "consume t [] = t\<lparr>pending := []\<rparr>"
| "consume t (b # bs) =
     (if b = 27
      then (case parse_escape bs of
              Complete a rest \<Rightarrow> consume (perform a t) rest
            | Incomplete \<Rightarrow> t\<lparr>pending := b # bs\<rparr>
            | Malformed \<Rightarrow> consume (put_char b t) bs)
      else consume (plain_byte b t) bs)"
  by pat_completeness auto
termination
proof (relation "measure (\<lambda>(t, bs). length bs)")
  show "wf (measure (\<lambda>(t, bs). length bs))" by simp
next
  fix t :: emulator and b :: nat and bs a rest
  assume complete: "parse_escape bs = Complete a rest"
  then obtain after final where "bs = 91 # after" and "dropWhile is_param after = final # rest"
    by (auto simp: parse_escape_def split: list.splits if_splits option.splits)
  then have "length rest < length bs"
    using length_dropWhile_le [of is_param after] by simp
  then show "((perform a t, rest), (t, b # bs)) \<in> measure (\<lambda>(t, bs). length bs)" by simp
qed simp_all

text \<open>
  Modelled from the spec: the missing entry point of the parser, called by the reader
  thread with each chunk of bytes it has read (4.2): the bytes kept from the calls
  before, then the chunk.
\<close>

definition feed :: "emulator \<Rightarrow> nat list \<Rightarrow> emulator" where
  "feed t chunk = consume t (pending t @ chunk)"

section \<open>The WebSocket client: proofs\<close>

subsection \<open>What each method leaves alone\<close>

lemma ws_open_update [simp]:
  "ws_open (messageQueue_update f1 s) = ws_open s"
  "ws_open (wire_update f2 s) = ws_open s"
  "ws_open (state_update f3 s) = ws_open s"
  "ws_open (reconnectAttempts_update f4 s) = ws_open s"
  "ws_open (reconnectTimer_update f5 s) = ws_open s"
  "ws_open (timerArmed_update f6 s) = ws_open s"
  "ws_open (options_update f7 s) = ws_open s"
  "ws_open (timeouts_update f8 s) = ws_open s"
  by (simp_all add: ws_open_def)

lemma send_open:
  "ws s = Some i \<Longrightarrow> sockets s i = Some OPEN \<Longrightarrow>
   send command s = (True, s\<lparr>wire := wire s @ [(i, command)]\<rparr>)"
  by (simp add: send_def ws_open_def)

lemma send_closed_reconnect:
  "\<not> ws_open s \<Longrightarrow> reconnect (options s) \<Longrightarrow>
   send command s = (False, s\<lparr>messageQueue := messageQueue s @ [command]\<rparr>)"
  by (simp add: send_def)

lemma send_closed_noreconnect:
  "\<not> ws_open s \<Longrightarrow> \<not> reconnect (options s) \<Longrightarrow> send command s = (False, s)"
  by (simp add: send_def)

lemma fst_send: "fst (send command s) = ws_open s"
  by (auto simp: send_def ws_open_def split: option.splits)

lemma send_frame [simp]:
  "sockets (snd (send command s)) = sockets s"
  "nsockets (snd (send command s)) = nsockets s"
  "timeouts (snd (send command s)) = timeouts s"
  "timerArmed (snd (send command s)) = timerArmed s"
  "ws (snd (send command s)) = ws s"
  "options (snd (send command s)) = options s"
  "state (snd (send command s)) = state s"
  "reconnectAttempts (snd (send command s)) = reconnectAttempts s"
  "reconnectTimer (snd (send command s)) = reconnectTimer s"
  by (simp_all add: send_def split: option.splits)

lemma ws_open_send [simp]: "ws_open (snd (send command s)) = ws_open s"
  by (simp add: ws_open_def)

lemma wire_send: "prefix (wire s) (wire (snd (send command s)))"
  by (simp add: send_def split: option.splits)

lemma callback_sends_frame [simp]:
  "sockets (callback_sends cs s) = sockets s"
  "nsockets (callback_sends cs s) = nsockets s"
  "timeouts (callback_sends cs s) = timeouts s"
  "timerArmed (callback_sends cs s) = timerArmed s"
  "ws (callback_sends cs s) = ws s"
  "options (callback_sends cs s) = options s"
  "state (callback_sends cs s) = state s"
  "reconnectAttempts (callback_sends cs s) = reconnectAttempts s"
  "reconnectTimer (callback_sends cs s) = reconnectTimer s"
  unfolding callback_sends_def by (induction cs arbitrary: s; simp)+

lemma callback_sends_Nil [simp]: "callback_sends [] s = s"
  by (simp add: callback_sends_def)

lemma ws_open_callback_sends [simp]: "ws_open (callback_sends cs s) = ws_open s"
  by (simp add: ws_open_def)

lemma wire_callback_sends: "prefix (wire s) (wire (callback_sends cs s))"
  unfolding callback_sends_def
proof (induction cs arbitrary: s)
  case Nil
  show ?case by simp
next
  case (Cons c cs)
  have "prefix (wire s) (wire (snd (send c s)))" by (rule wire_send)
  also have "prefix \<dots> (wire (fold (\<lambda>command s'. snd (send command s')) cs (snd (send c s))))"
    by (rule Cons.IH)
  finally show ?case by simp
qed

lemma setState_frame [simp]:
  "sockets (setState st s) = sockets s"
  "nsockets (setState st s) = nsockets s"
  "timeouts (setState st s) = timeouts s"
  "timerArmed (setState st s) = timerArmed s"
  "ws (setState st s) = ws s"
  "options (setState st s) = options s"
  "state (setState st s) = st"
  "reconnectAttempts (setState st s) = reconnectAttempts s"
  "reconnectTimer (setState st s) = reconnectTimer s"
  by (simp_all add: setState_def)

lemma ws_open_setState [simp]: "ws_open (setState st s) = ws_open s"
  by (simp add: ws_open_def)

lemma wire_setState: "prefix (wire s) (wire (setState st s))"
  using wire_callback_sends [of "s\<lparr>state := st\<rparr>"] by (simp add: setState_def)

lemma clearReconnectTimer_frame [simp]:
  "sockets (clearReconnectTimer s) = sockets s"
  "nsockets (clearReconnectTimer s) = nsockets s"
  "wire (clearReconnectTimer s) = wire s"
  "timeouts (clearReconnectTimer s) = timeouts s"
  "ws (clearReconnectTimer s) = ws s"
  "options (clearReconnectTimer s) = options s"
  "state (clearReconnectTimer s) = state s"
  "reconnectAttempts (clearReconnectTimer s) = reconnectAttempts s"
  "messageQueue (clearReconnectTimer s) = messageQueue s"
  by (simp_all add: clearReconnectTimer_def split: option.splits)

lemma scheduleReconnect_frame [simp]:
  "sockets (scheduleReconnect s) = sockets s"
  "nsockets (scheduleReconnect s) = nsockets s"
  "wire (scheduleReconnect s) = wire s"
  "ws (scheduleReconnect s) = ws s"
  "options (scheduleReconnect s) = options s"
  "state (scheduleReconnect s) = state s"
  "messageQueue (scheduleReconnect s) = messageQueue s"
  by (simp_all add: scheduleReconnect_def Let_def)




lemma connect_frame [simp]:
  "timeouts (connect throws s) = timeouts s"
  "options (connect throws s) = options s"
  "reconnectAttempts (connect throws s) = reconnectAttempts s"
  by (simp_all add: connect_def handleError_def Let_def)

lemma wire_connect: "prefix (wire s) (wire (connect throws s))"
proof -
  have "prefix (wire s) (wire (setState Connecting s))" by (rule wire_setState)
  moreover have "prefix (wire (setState Connecting s)) (wire (setState Errored (setState Connecting s)))"
    by (rule wire_setState)
  ultimately show ?thesis
    by (auto simp: connect_def handleError_def Let_def intro: prefix_order.trans)
qed

lemma disconnect_frame [simp]:
  "timeouts (disconnect s) = timeouts s"
  "reconnectAttempts (disconnect s) = reconnectAttempts s"
  "maxReconnectAttempts (options (disconnect s)) = maxReconnectAttempts (options s)"
  "reconnectInterval (options (disconnect s)) = reconnectInterval (options s)"
  "onStateChange (options (disconnect s)) = onStateChange (options s)"
  by (simp_all add: disconnect_def Let_def split: option.splits)

lemma wire_disconnect: "prefix (wire s) (wire (disconnect s))"
proof -
  define s3 where "s3 =
    (case ws (clearReconnectTimer (s\<lparr>options := (options s)\<lparr>reconnect := False\<rparr>\<rparr>)) of
       None \<Rightarrow> clearReconnectTimer (s\<lparr>options := (options s)\<lparr>reconnect := False\<rparr>\<rparr>)
     | Some i \<Rightarrow> (clearReconnectTimer (s\<lparr>options := (options s)\<lparr>reconnect := False\<rparr>\<rparr>))
         \<lparr>sockets := close_socket i (sockets (clearReconnectTimer (s\<lparr>options := (options s)\<lparr>reconnect := False\<rparr>\<rparr>))),
          ws := None\<rparr>)"
  have "wire s3 = wire s" by (simp add: s3_def split: option.splits)
  moreover have "disconnect s = setState Disconnected s3"
    by (simp add: disconnect_def Let_def s3_def)
  ultimately show ?thesis using wire_setState [of s3 Disconnected] by simp
qed

lemma onclose_frame [simp]:
  "options (onclose wasClean s) = options s"
  by (simp add: onclose_def Let_def)

lemma wire_onclose: "prefix (wire s) (wire (onclose wasClean s))"
  using wire_setState [of s Disconnected] by (simp add: onclose_def Let_def)

lemma onerror_frame [simp]:
  "timeouts (onerror s) = timeouts s"
  "options (onerror s) = options s"
  "reconnectAttempts (onerror s) = reconnectAttempts s"
  by (simp_all add: onerror_def handleError_def)

lemma wire_onerror: "prefix (wire s) (wire (onerror s))"
  by (simp add: onerror_def handleError_def wire_setState)

subsection \<open>The flush loop, case by case\<close>

lemma flush_empty: "messageQueue s = [] \<Longrightarrow> flushMessageQueue s = Some s"
  by (subst flushMessageQueue.simps) simp

lemma flush_open_aux:
  "ws s = Some i \<Longrightarrow> sockets s i = Some OPEN \<Longrightarrow> messageQueue s = q \<Longrightarrow>
   flushMessageQueue s = Some (s\<lparr>wire := wire s @ map (Pair i) q, messageQueue := []\<rparr>)"
proof (induction q arbitrary: s)
  case Nil
  then show ?case by (subst flushMessageQueue.simps) simp
next
  case (Cons command rest)
  let ?s' = "s\<lparr>wire := wire s @ [(i, command)], messageQueue := rest\<rparr>"
  have snd: "snd (send command (s\<lparr>messageQueue := rest\<rparr>)) = ?s'"
    using Cons.prems by (simp add: send_open)
  have "flushMessageQueue s = flushMessageQueue ?s'"
    using Cons.prems snd by (subst flushMessageQueue.simps) simp
  also have "\<dots> = Some (?s'\<lparr>wire := wire ?s' @ map (Pair i) rest, messageQueue := []\<rparr>)"
    using Cons.prems by (intro Cons.IH) simp_all
  finally show ?case by simp
qed

lemma flush_open:
  "ws s = Some i \<Longrightarrow> sockets s i = Some OPEN \<Longrightarrow>
   flushMessageQueue s =
     Some (s\<lparr>wire := wire s @ map (Pair i) (messageQueue s), messageQueue := []\<rparr>)"
  by (rule flush_open_aux) simp_all

lemma flush_closed_noreconnect_aux:
  "\<not> ws_open s \<Longrightarrow> \<not> reconnect (options s) \<Longrightarrow> messageQueue s = q \<Longrightarrow>
   flushMessageQueue s = Some (s\<lparr>messageQueue := []\<rparr>)"
proof (induction q arbitrary: s)
  case Nil
  then show ?case by (subst flushMessageQueue.simps) simp
next
  case (Cons command rest)
  let ?s' = "s\<lparr>messageQueue := rest\<rparr>"
  have snd: "snd (send command ?s') = ?s'"
    using Cons.prems by (simp add: send_closed_noreconnect)
  have "flushMessageQueue s = flushMessageQueue ?s'"
    using Cons.prems snd by (subst flushMessageQueue.simps) simp
  also have "\<dots> = Some (?s'\<lparr>messageQueue := []\<rparr>)"
    using Cons.prems by (intro Cons.IH) simp_all
  finally show ?case by simp
qed

lemma flush_closed_noreconnect:
  "\<not> ws_open s \<Longrightarrow> \<not> reconnect (options s) \<Longrightarrow>
   flushMessageQueue s = Some (s\<lparr>messageQueue := []\<rparr>)"
  by (rule flush_closed_noreconnect_aux) simp_all

text \<open>
  With the socket not open and reconnecting enabled, \<open>send\<close> puts back what the loop
  took out: a call that returns cannot have started there with a command queued.
\<close>

lemma flush_returns_only_if:
  assumes "flushMessageQueue s = Some t"
  shows "ws_open s \<or> \<not> reconnect (options s) \<or> messageQueue s = []"
proof (rule flushMessageQueue.raw_induct
    [where P = "\<lambda>s t. ws_open s \<or> \<not> reconnect (options s) \<or> messageQueue s = []", OF _ assms])
  fix flush :: "AxiomWebSocket \<Rightarrow> AxiomWebSocket option" and s t
  assume IH: "\<And>s t. flush s = Some t \<Longrightarrow>
                 ws_open s \<or> \<not> reconnect (options s) \<or> messageQueue s = []"
    and body: "(case messageQueue s of [] \<Rightarrow> Some s
               | command # rest \<Rightarrow> flush (snd (send command (s\<lparr>messageQueue := rest\<rparr>)))) = Some t"
  show "ws_open s \<or> \<not> reconnect (options s) \<or> messageQueue s = []"
  proof (cases "messageQueue s")
    case Nil
    then show ?thesis by simp
  next
    case (Cons command rest)
    let ?s' = "snd (send command (s\<lparr>messageQueue := rest\<rparr>))"
    from body Cons have "flush ?s' = Some t" by simp
    from IH[OF this]
    have ih: "ws_open ?s' \<or> \<not> reconnect (options ?s') \<or> messageQueue ?s' = []" .
    show ?thesis
    proof (rule ccontr)
      assume "\<not> ?thesis"
      then have c: "\<not> ws_open s" "reconnect (options s)" by auto
      then have "?s' = s\<lparr>messageQueue := rest @ [command]\<rparr>"
        by (simp add: send_closed_reconnect)
      with ih c show False by simp
    qed
  qed
qed

lemma flush_diverges:
  "\<not> ws_open s \<Longrightarrow> reconnect (options s) \<Longrightarrow> messageQueue s \<noteq> [] \<Longrightarrow>
   flushMessageQueue s = None"
  using flush_returns_only_if [of s] by (cases "flushMessageQueue s") auto

lemma ws_openE:
  assumes "ws_open s"
  obtains i where "ws s = Some i" and "sockets s i = Some OPEN"
  using assms by (cases "ws s") (auto simp: ws_open_def)

lemma flush_Some:
  assumes "flushMessageQueue s = Some t"
  shows "sockets t = sockets s" "nsockets t = nsockets s" "timeouts t = timeouts s"
    "timerArmed t = timerArmed s" "ws t = ws s" "options t = options s" "state t = state s"
    "reconnectAttempts t = reconnectAttempts s" "reconnectTimer t = reconnectTimer s"
    "messageQueue t = []" "prefix (wire s) (wire t)"
proof -
  have "t = s \<and> messageQueue s = [] \<or> t = s\<lparr>messageQueue := []\<rparr>
      \<or> (\<exists>i. t = s\<lparr>wire := wire s @ map (Pair i) (messageQueue s), messageQueue := []\<rparr>)"
  proof (cases "ws_open s")
    case True
    then obtain i where "ws s = Some i" "sockets s i = Some OPEN" by (rule ws_openE)
    from flush_open[OF this] assms show ?thesis by auto
  next
    case closed: False
    show ?thesis
    proof (cases "reconnect (options s)")
      case True
      with closed flush_returns_only_if[OF assms] have "messageQueue s = []" by simp
      with assms flush_empty[of s] show ?thesis by simp
    next
      case False
      from flush_closed_noreconnect[OF closed this] assms show ?thesis by simp
    qed
  qed
  then show "sockets t = sockets s" "nsockets t = nsockets s" "timeouts t = timeouts s"
    "timerArmed t = timerArmed s" "ws t = ws s" "options t = options s" "state t = state s"
    "reconnectAttempts t = reconnectAttempts s" "reconnectTimer t = reconnectTimer s"
    "messageQueue t = []" "prefix (wire s) (wire t)"
    by auto
qed

lemma onopen_Some:
  assumes "onopen s = Some t"
  shows "reconnectAttempts t = 0" "options t = options s" "timeouts t = timeouts s"
    "messageQueue t = []" "prefix (wire s) (wire t)"
proof -
  let ?s2 = "(setState Connected s)\<lparr>reconnectAttempts := 0\<rparr>"
  from assms have f: "flushMessageQueue ?s2 = Some t" by (simp add: onopen_def Let_def)
  from flush_Some[OF f] show "reconnectAttempts t = 0" "options t = options s"
    "timeouts t = timeouts s" "messageQueue t = []"
    by simp_all
  have "prefix (wire s) (wire ?s2)" using wire_setState [of s Connected] by simp
  with flush_Some(11)[OF f] show "prefix (wire s) (wire t)" by (rule prefix_order.trans[rotated])
qed


subsection \<open>Runs\<close>

lemma step_wire: "step e s = Some t \<Longrightarrow> prefix (wire s) (wire t)"
proof (cases e)
  case (SockOpen i)
  assume st: "step e s = Some t"
  show ?thesis
  proof (cases "sockets s i = Some CONNECTING")
    case True
    with st SockOpen have "onopen (s\<lparr>sockets := (sockets s)(i \<mapsto> OPEN)\<rparr>) = Some t" by simp
    from onopen_Some(5)[OF this] show ?thesis by simp
  next
    case False
    with st SockOpen show ?thesis by simp
  qed
next
  case (TimerFire throws)
  assume "step e s = Some t"
  with TimerFire wire_connect [of "s\<lparr>timerArmed := False\<rparr>" throws] show ?thesis
    by (auto split: if_splits)
next
  case (SockClose i wasClean)
  assume "step e s = Some t"
  with SockClose wire_onclose [of "s\<lparr>sockets := (sockets s)(i \<mapsto> CLOSED)\<rparr>" wasClean]
  show ?thesis by (auto split: if_splits)
qed (auto simp: wire_connect wire_disconnect wire_send wire_onerror split: if_splits)

lemma run_wire: "run evs s = Some t \<Longrightarrow> prefix (wire s) (wire t)"
proof (induction evs arbitrary: s)
  case Nil
  then show ?case by simp
next
  case (Cons e evs)
  then obtain s1 where s1: "step e s = Some s1" and r: "run evs s1 = Some t"
    by (auto split: option.splits)
  from step_wire[OF s1] Cons.IH[OF r] show ?case by (rule prefix_order.trans)
qed





lemma step_options:
  assumes "step e s = Some t"
  shows "maxReconnectAttempts (options t) = maxReconnectAttempts (options s)"
    and "reconnectInterval (options t) = reconnectInterval (options s)"
    and "onStateChange (options t) = onStateChange (options s)"
proof -
  have "maxReconnectAttempts (options t) = maxReconnectAttempts (options s)
      \<and> reconnectInterval (options t) = reconnectInterval (options s)
      \<and> onStateChange (options t) = onStateChange (options s)"
  proof (cases e)
    case (SockOpen i)
    show ?thesis
    proof (cases "sockets s i = Some CONNECTING")
      case True
      with assms SockOpen have "onopen (s\<lparr>sockets := (sockets s)(i \<mapsto> OPEN)\<rparr>) = Some t" by simp
      from onopen_Some(2)[OF this] show ?thesis by simp
    next
      case False
      with assms SockOpen show ?thesis by simp
    qed
  qed (use assms in \<open>auto split: if_splits\<close>)
  then show "maxReconnectAttempts (options t) = maxReconnectAttempts (options s)"
    and "reconnectInterval (options t) = reconnectInterval (options s)"
    and "onStateChange (options t) = onStateChange (options s)"
    by simp_all
qed







lemma run_append:
  "run (evs @ evs') s = (case run evs s of None \<Rightarrow> None | Some s' \<Rightarrow> run evs' s')"
  by (induction evs arbitrary: s) (simp_all split: option.splits)

lemma run_single: "run [e] s = step e s"
  by (cases "step e s") simp_all

subsection \<open>Send order when the callback sends nothing\<close>

lemma setState_quiet:
  "onStateChange (options s) = (\<lambda>_. []) \<Longrightarrow> setState st s = s\<lparr>state := st\<rparr>"
  by (simp add: setState_def)

lemma sends_Cons: "sends (e # evs) = sends [e] @ sends evs"
  by (cases e) simp_all

lemma ws_open_closed_socket:
  "ws_open (s\<lparr>sockets := (sockets s)(i \<mapsto> CLOSED)\<rparr>) \<Longrightarrow> ws_open s"
  by (cases "ws s") (auto simp: ws_open_def split: if_splits)

lemma connect_quiet:
  assumes "onStateChange (options s) = (\<lambda>_. [])" and "ws_open s \<longrightarrow> messageQueue s = []"
  shows "(ws_open (connect throws s) \<longrightarrow> messageQueue (connect throws s) = [])
         \<and> wire (connect throws s) = wire s
         \<and> messageQueue (connect throws s) = messageQueue s"
  using assms by (simp add: connect_def handleError_def setState_quiet Let_def ws_open_def)

lemma disconnect_quiet:
  assumes "onStateChange (options s) = (\<lambda>_. [])"
  shows "\<not> ws_open (disconnect s) \<and> wire (disconnect s) = wire s
         \<and> messageQueue (disconnect s) = messageQueue s"
  using assms
  by (simp add: disconnect_def setState_def Let_def ws_open_def split: option.splits)

lemma onclose_quiet:
  assumes "onStateChange (options s) = (\<lambda>_. [])"
  shows "ws_open (onclose wasClean s) = ws_open s \<and> wire (onclose wasClean s) = wire s
         \<and> messageQueue (onclose wasClean s) = messageQueue s"
  using assms by (simp add: onclose_def setState_quiet Let_def ws_open_def)

lemma onopen_quiet:
  assumes "onopen s = Some t" and "onStateChange (options s) = (\<lambda>_. [])"
  shows "(ws_open t \<longrightarrow> messageQueue t = [])
         \<and> subseq (transmitted t @ messageQueue t) (transmitted s @ messageQueue s)"
proof -
  let ?s2 = "s\<lparr>state := Connected, reconnectAttempts := 0\<rparr>"
  from assms have f: "flushMessageQueue ?s2 = Some t"
    by (simp add: onopen_def setState_quiet Let_def)
  show ?thesis
  proof (cases "ws_open ?s2")
    case True
    then obtain i where "ws ?s2 = Some i" "sockets ?s2 i = Some OPEN" by (rule ws_openE)
    from flush_open[OF this] f show ?thesis by (auto simp: transmitted_def comp_def)
  next
    case closed: False
    show ?thesis
    proof (cases "reconnect (options ?s2)")
      case True
      with closed flush_returns_only_if[OF f] have "messageQueue ?s2 = []" by simp
      with f flush_empty[of ?s2] show ?thesis by (auto simp: transmitted_def)
    next
      case False
      from flush_closed_noreconnect[OF closed this] f closed show ?thesis
        by (auto simp: transmitted_def ws_open_def)
    qed
  qed
qed

lemma step_order:
  assumes "step e s = Some t" and "onStateChange (options s) = (\<lambda>_. [])"
    and "ws_open s \<longrightarrow> messageQueue s = []"
  shows "(ws_open t \<longrightarrow> messageQueue t = [])
         \<and> subseq (transmitted t @ messageQueue t) (transmitted s @ messageQueue s @ sends [e])"
proof (cases e)
  case (Connect throws)
  with assms(1) have "t = connect throws s" by simp
  with connect_quiet[OF assms(2,3), of throws] Connect show ?thesis
    by (auto simp: transmitted_def)
next
  case Disconnect
  with assms(1) have "t = disconnect s" by simp
  with disconnect_quiet[OF assms(2)] Disconnect show ?thesis
    by (auto simp: transmitted_def)
next
  case (Send command)
  show ?thesis
  proof (cases "ws_open s")
    case True
    then obtain i where "ws s = Some i" "sockets s i = Some OPEN" by (rule ws_openE)
    from send_open[OF this] True assms Send show ?thesis by (auto simp: transmitted_def)
  next
    case False
    with assms Send show ?thesis
      by (cases "reconnect (options s)")
         (auto simp: send_closed_reconnect send_closed_noreconnect transmitted_def)
  qed
next
  case (SockOpen i)
  show ?thesis
  proof (cases "sockets s i = Some CONNECTING")
    case True
    let ?s1 = "s\<lparr>sockets := (sockets s)(i \<mapsto> OPEN)\<rparr>"
    from True assms SockOpen have "onopen ?s1 = Some t" by simp
    from onopen_quiet[OF this] assms(2) SockOpen show ?thesis
      by (auto simp: transmitted_def)
  next
    case False
    with assms SockOpen show ?thesis by simp
  qed
next
  case (SockClose i wasClean)
  let ?s1 = "s\<lparr>sockets := (sockets s)(i \<mapsto> CLOSED)\<rparr>"
  show ?thesis
  proof (cases "sockets s i = None \<or> sockets s i = Some CLOSED")
    case True
    with assms SockClose show ?thesis by auto
  next
    case False
    with assms SockClose have t: "t = onclose wasClean ?s1" by auto
    from assms(2) have "onStateChange (options ?s1) = (\<lambda>_. [])" by simp
    from onclose_quiet[OF this, of wasClean] t assms(3) ws_open_closed_socket[of s i]
    show ?thesis using SockClose by (auto simp: transmitted_def)
  qed
next
  case (SockError i)
  with assms show ?thesis
    by (auto simp: onerror_def handleError_def setState_quiet ws_open_def transmitted_def
        split: if_splits)
next
  case (TimerFire throws)
  let ?s1 = "s\<lparr>timerArmed := False\<rparr>"
  show ?thesis
  proof (cases "timerArmed s")
    case True
    with assms TimerFire have t: "t = connect throws ?s1" by simp
    from assms have "onStateChange (options ?s1) = (\<lambda>_. [])"
      "ws_open ?s1 \<longrightarrow> messageQueue ?s1 = []" by simp_all
    from connect_quiet[OF this, of throws] t TimerFire show ?thesis
      by (auto simp: transmitted_def)
  next
    case False
    with assms TimerFire show ?thesis by simp
  qed
qed

lemma run_order:
  "run evs s = Some t \<Longrightarrow> onStateChange (options s) = (\<lambda>_. []) \<Longrightarrow>
   ws_open s \<longrightarrow> messageQueue s = [] \<Longrightarrow>
   subseq (transmitted t @ messageQueue t) (transmitted s @ messageQueue s @ sends evs)"
proof (induction evs arbitrary: s)
  case Nil
  then show ?case by simp
next
  case (Cons e evs)
  then obtain s1 where s1: "step e s = Some s1" and r: "run evs s1 = Some t"
    by (auto split: option.splits)
  from step_order[OF s1 Cons.prems(2,3)]
  have inv: "ws_open s1 \<longrightarrow> messageQueue s1 = []"
    and a: "subseq (transmitted s1 @ messageQueue s1) (transmitted s @ messageQueue s @ sends [e])"
    by simp_all
  from step_options(3)[OF s1] Cons.prems(2)
  have q: "onStateChange (options s1) = (\<lambda>_. [])" by simp
  from Cons.IH[OF r q inv]
  have b: "subseq (transmitted t @ messageQueue t) (transmitted s1 @ messageQueue s1 @ sends evs)" .
  from list_emb_append_mono[OF a, of "sends evs" "sends evs"]
  have "subseq ((transmitted s1 @ messageQueue s1) @ sends evs)
               ((transmitted s @ messageQueue s @ sends [e]) @ sends evs)"
    by simp
  with b have "subseq (transmitted t @ messageQueue t)
                      ((transmitted s @ messageQueue s @ sends [e]) @ sends evs)"
    by (simp add: subseq_order.order_trans)
  then show ?case by (simp add: sends_Cons[of e evs])
qed

lemma send_order_kept_by_silent_callback:
  assumes "run evs (AxiomWebSocket_new opts) = Some t" and "onStateChange opts = (\<lambda>_. [])"
  shows "subseq (transmitted t) (sends evs)"
proof -
  from run_order[OF assms(1)] assms(2)
  have "subseq (transmitted t @ messageQueue t) (sends evs)"
    by (simp add: AxiomWebSocket_new_def ws_open_def transmitted_def)
  moreover have "subseq (transmitted t) (transmitted t @ messageQueue t)"
    by (rule list_emb_prefix) simp
  ultimately show ?thesis by (rule subseq_order.order_trans[rotated])
qed

subsection \<open>The claims about the WebSocket client\<close>

text \<open>
  Claim C3. No command passed to \<open>send\<close> is silently discarded. For every state and
  command, one of three things happens: the command is handed to the open socket and
  \<open>send\<close> returns true; or \<open>send\<close> returns false and, reconnecting being enabled, the
  command is appended to the queue; or \<open>send\<close> returns false and the state is unchanged.
  A command for which \<open>send\<close> returned true is among the transmitted commands at the end
  of every run that follows: a command can be lost only if \<open>send\<close> returned false for it.
\<close>

theorem send_transmits_queues_or_reports:
  "(fst (send command s)
      \<and> transmitted (snd (send command s)) = transmitted s @ [command]
      \<and> messageQueue (snd (send command s)) = messageQueue s
    \<or> \<not> fst (send command s) \<and> reconnect (options s)
      \<and> messageQueue (snd (send command s)) = messageQueue s @ [command]
      \<and> transmitted (snd (send command s)) = transmitted s
    \<or> \<not> fst (send command s) \<and> \<not> reconnect (options s)
      \<and> snd (send command s) = s)
   \<and> (fst (send command s) \<and> run evs (snd (send command s)) = Some t
        \<longrightarrow> command \<in> set (transmitted t))"
proof (intro conjI impI)
  show "fst (send command s)
      \<and> transmitted (snd (send command s)) = transmitted s @ [command]
      \<and> messageQueue (snd (send command s)) = messageQueue s
    \<or> \<not> fst (send command s) \<and> reconnect (options s)
      \<and> messageQueue (snd (send command s)) = messageQueue s @ [command]
      \<and> transmitted (snd (send command s)) = transmitted s
    \<or> \<not> fst (send command s) \<and> \<not> reconnect (options s)
      \<and> snd (send command s) = s"
  proof (cases "ws_open s")
    case True
    then obtain i where "ws s = Some i" "sockets s i = Some OPEN" by (rule ws_openE)
    from send_open[OF this] show ?thesis by (simp add: transmitted_def)
  next
    case False
    then show ?thesis
      by (cases "reconnect (options s)")
         (simp_all add: send_closed_reconnect send_closed_noreconnect transmitted_def)
  qed
next
  assume a: "fst (send command s) \<and> run evs (snd (send command s)) = Some t"
  then have "ws_open s" by (simp add: fst_send)
  then obtain i where "ws s = Some i" "sockets s i = Some OPEN" by (rule ws_openE)
  from send_open[OF this] have "(i, command) \<in> set (wire (snd (send command s)))" by simp
  moreover from a have "prefix (wire (snd (send command s))) (wire t)"
    using run_wire [of evs "snd (send command s)" t] by simp
  ultimately have "(i, command) \<in> set (wire t)" by (auto simp: prefix_def)
  then show "command \<in> set (transmitted t)" by (force simp: transmitted_def)
qed

theorem send_transmits_queues_or_reports_witness:
  "fst (send ListWorkspaces open_client)
   \<and> (\<exists>t. run [SockClose 0 False, Send (ReadFile ''a'')] (snd (send ListWorkspaces open_client)) = Some t
          \<and> ListWorkspaces \<in> set (transmitted t))"
proof -
  have f: "fst (send ListWorkspaces open_client)"
    by (simp add: fst_send ws_open_def open_client_def)
  have "\<exists>t. run [SockClose 0 False, Send (ReadFile ''a'')] (snd (send ListWorkspaces open_client)) = Some t"
    by (simp add: send_def ws_open_def open_client_def onclose_def setState_def
        DEFAULT_OPTIONS_def scheduleReconnect_def clearReconnectTimer_def Let_def)
  then obtain t where
    r: "run [SockClose 0 False, Send (ReadFile ''a'')] (snd (send ListWorkspaces open_client)) = Some t" ..
  from send_transmits_queues_or_reports
    [of ListWorkspaces open_client "[SockClose 0 False, Send (ReadFile ''a'')]" t] f r
  have "ListWorkspaces \<in> set (transmitted t)" by blast
  with f r show ?thesis by blast
qed




text \<open>
  Claim C8 says that \<open>flushMessageQueue\<close> returns on every call and leaves the queue
  empty. The code does not. Take a new client with the default options, call \<open>connect\<close>
  twice (the second call replaces the first socket while both are connecting) and send
  one command, which is queued. When the first socket opens, its handler runs
  \<open>flushMessageQueue\<close> while \<open>this.ws\<close>, the second socket, is still connecting: the loop
  takes the command out of the queue and \<open>send\<close> puts it back, and the call never
  returns. The lemmas \<open>flush_open\<close>, \<open>flush_closed_noreconnect\<close> and \<open>flush_diverges\<close>
  give the three cases of the loop.
\<close>

theorem flushMessageQueue_never_returns:
  "map_option messageQueue
     (run [Connect False, Connect False, Send ListWorkspaces] (AxiomWebSocket_new DEFAULT_OPTIONS))
     = Some [ListWorkspaces]
   \<and> run [Connect False, Connect False, Send ListWorkspaces, SockOpen 0]
        (AxiomWebSocket_new DEFAULT_OPTIONS) = None"
proof -
  let ?new = "AxiomWebSocket_new DEFAULT_OPTIONS"
  have "\<exists>s3. run [Connect False, Connect False, Send ListWorkspaces] ?new = Some s3
          \<and> ws s3 = Some 1 \<and> sockets s3 0 = Some CONNECTING \<and> sockets s3 1 = Some CONNECTING
          \<and> messageQueue s3 = [ListWorkspaces] \<and> options s3 = DEFAULT_OPTIONS"
    by (simp add: connect_def send_def ws_open_def setState_def AxiomWebSocket_new_def
        DEFAULT_OPTIONS_def Let_def)
  then obtain s3 where r3: "run [Connect False, Connect False, Send ListWorkspaces] ?new = Some s3"
    and w: "ws s3 = Some 1" and s0: "sockets s3 0 = Some CONNECTING"
    and s1: "sockets s3 1 = Some CONNECTING" and q: "messageQueue s3 = [ListWorkspaces]"
    and o: "options s3 = DEFAULT_OPTIONS"
    by blast
  let ?opened = "s3\<lparr>sockets := (sockets s3)(0 \<mapsto> OPEN)\<rparr>"
  let ?flushing = "(setState Connected ?opened)\<lparr>reconnectAttempts := 0\<rparr>"
  have closed: "\<not> ws_open ?flushing" using w s1 by (simp add: ws_open_def)
  have again: "reconnect (options ?flushing)" using o by (simp add: DEFAULT_OPTIONS_def)
  have queued: "messageQueue ?flushing \<noteq> []"
    using q o by (simp add: setState_def DEFAULT_OPTIONS_def)
  have "run ([Connect False, Connect False, Send ListWorkspaces] @ [SockOpen 0]) ?new =
          step (SockOpen 0) s3"
    by (simp only: run_append r3 option.case run_single)
  also have "\<dots> = flushMessageQueue ?flushing"
    using s0 by (simp add: onopen_def Let_def)
  also have "\<dots> = None" using closed again queued by (rule flush_diverges)
  finally have "run [Connect False, Connect False, Send ListWorkspaces, SockOpen 0] ?new = None"
    by simp
  moreover have "map_option messageQueue
      (run [Connect False, Connect False, Send ListWorkspaces] ?new) = Some [ListWorkspaces]"
    by (simp only: r3 q option.map)
  ultimately show ?thesis by (rule conjI[rotated])
qed

text \<open>
  Claim C2 says that commands are transmitted in the order of the calls of \<open>send\<close>.
  The code breaks the order for a command sent from the \<open>onStateChange\<close> callback: the
  open handler calls \<open>setState\<close>, and with it the callback, before it flushes the queue,
  so the callback's command finds the socket open and goes out ahead of the commands
  queued before it. Below, \<open>first\<close> is sent while the socket is connecting and is queued,
  \<open>second\<close> is sent by the callback when the socket opens, and the socket is handed
  \<open>second\<close> before \<open>first\<close>. The lemma \<open>send_order_kept_by_silent_callback\<close> shows that
  the order is kept when the callback sends nothing.
\<close>

theorem send_order_broken_by_callback:
  "map_option messageQueue
     (run [Connect False, Send (ProcessInput ''first'')] (AxiomWebSocket_new announcing_options))
     = Some [ProcessInput ''first'']
   \<and> map_option transmitted
     (run [Connect False, Send (ProcessInput ''first''), SockOpen 0]
        (AxiomWebSocket_new announcing_options))
     = Some [ProcessInput ''second'', ProcessInput ''first'']"
proof -
  let ?new = "AxiomWebSocket_new announcing_options"
  have "\<exists>s2. run [Connect False, Send (ProcessInput ''first'')] ?new = Some s2
          \<and> ws s2 = Some 0 \<and> sockets s2 0 = Some CONNECTING \<and> wire s2 = []
          \<and> messageQueue s2 = [ProcessInput ''first''] \<and> options s2 = announcing_options"
    by (simp add: connect_def send_def ws_open_def setState_def AxiomWebSocket_new_def
        announcing_options_def DEFAULT_OPTIONS_def Let_def)
  then obtain s2 where r2: "run [Connect False, Send (ProcessInput ''first'')] ?new = Some s2"
    and w: "ws s2 = Some 0" and s0: "sockets s2 0 = Some CONNECTING" and wi: "wire s2 = []"
    and q: "messageQueue s2 = [ProcessInput ''first'']" and o: "options s2 = announcing_options"
    by blast
  let ?opened = "s2\<lparr>sockets := (sockets s2)(0 \<mapsto> OPEN)\<rparr>"
  have op: "ws ?opened = Some 0" "sockets ?opened 0 = Some OPEN" using w by simp_all
  have told: "setState Connected ?opened =
                ?opened\<lparr>state := Connected, wire := [(0, ProcessInput ''second'')]\<rparr>"
    using w wi o
    by (simp add: setState_def announcing_options_def callback_sends_def send_def ws_open_def)
  let ?flushing = "(setState Connected ?opened)\<lparr>reconnectAttempts := 0\<rparr>"
  have "ws ?flushing = Some 0" "sockets ?flushing 0 = Some OPEN" using w by simp_all
  from flush_open[OF this]
  have "flushMessageQueue ?flushing =
          Some (?flushing\<lparr>wire := wire ?flushing @ map (Pair 0) (messageQueue ?flushing),
                           messageQueue := []\<rparr>)" .
  moreover have "wire ?flushing = [(0, ProcessInput ''second'')]"
    and "messageQueue ?flushing = [ProcessInput ''first'']"
    using told q by simp_all
  ultimately have sent: "map_option transmitted (flushMessageQueue ?flushing) =
      Some [ProcessInput ''second'', ProcessInput ''first'']"
    by (simp add: transmitted_def)
  have "run ([Connect False, Send (ProcessInput ''first'')] @ [SockOpen 0]) ?new =
          step (SockOpen 0) s2"
    by (simp only: run_append r2 option.case run_single)
  also have "\<dots> = flushMessageQueue ?flushing"
    using s0 by (simp add: onopen_def Let_def)
  finally have "run [Connect False, Send (ProcessInput ''first''), SockOpen 0] ?new =
      flushMessageQueue ?flushing"
    by simp
  with sent have "map_option transmitted
      (run [Connect False, Send (ProcessInput ''first''), SockOpen 0] ?new) =
      Some [ProcessInput ''second'', ProcessInput ''first'']"
    by (simp only:)
  moreover have "map_option messageQueue
      (run [Connect False, Send (ProcessInput ''first'')] ?new) = Some [ProcessInput ''first'']"
    by (simp only: r2 q option.map)
  ultimately show ?thesis by (rule conjI[rotated])
qed

section \<open>The configuration file: proofs\<close>

lemma find_snoc_fresh: "find P xs = None \<Longrightarrow> P w \<Longrightarrow> find P (xs @ [w]) = Some w"
  by (induction xs) (auto split: if_splits)

lemma find_snoc_other: "\<not> P w \<Longrightarrow> find P (xs @ [w]) = find P xs"
  by (induction xs) auto

lemma find_filter_removed: "find (\<lambda>w. f w = i) (filter (\<lambda>w. f w \<noteq> i) xs) = None"
  by (induction xs) auto

lemma find_filter_other:
  "i \<noteq> j \<Longrightarrow> find (\<lambda>w. f w = i) (filter (\<lambda>w. f w \<noteq> j) xs) = find (\<lambda>w. f w = i) xs"
  by (induction xs) auto

text \<open>What is read back after a write.\<close>

lemma readConfig_writeConfig:
  "writeConfig config st = Inr st' \<Longrightarrow> readConfig st' = Inr (config, Fresh)"
  by (auto simp: writeConfig_def readConfig_def split: if_splits)

lemma writeConfig_writable:
  "writeConfig config st = Inr st' \<Longrightarrow> writable st'"
  by (auto simp: writeConfig_def split: if_splits)

lemma addWorkspace_ok:
  assumes "writable st" and "readConfig st = Inr (config, sh)"
    and "w = \<lparr>id_w = uuid, title = title_n nw, path = path_n nw, type_w = type_n nw,
               lastAccessed = accessed, createdAt = created\<rparr>"
  shows "fst (addWorkspace nw uuid created accessed st) = Inr w"
    and "readConfig (snd (addWorkspace nw uuid created accessed st)) =
           Inr (config\<lparr>workspaces := workspaces config @ [w]\<rparr>, Fresh)"
    and "writable (snd (addWorkspace nw uuid created accessed st))"
proof -
  let ?config1 = "config\<lparr>workspaces := workspaces config @ [w]\<rparr>"
  let ?st1 = "if sh = Fresh then st
              else st\<lparr>defaults := (defaults st)\<lparr>workspaces := workspaces (defaults st) @ [w]\<rparr>\<rparr>"
  from assms(1) have "writable ?st1" by simp
  then obtain st2 where w2: "writeConfig ?config1 ?st1 = Inr st2"
    by (simp add: writeConfig_def)
  have "addWorkspace nw uuid created accessed st =
          (case writeConfig ?config1 ?st1 of Inl e \<Rightarrow> (Inl e, ?st1) | Inr st2 \<Rightarrow> (Inr w, st2))"
    unfolding addWorkspace_def Let_def assms(2) assms(3) by simp
  with w2 have a: "addWorkspace nw uuid created accessed st = (Inr w, st2)" by simp
  from a show "fst (addWorkspace nw uuid created accessed st) = Inr w" by simp
  from a readConfig_writeConfig[OF w2]
  show "readConfig (snd (addWorkspace nw uuid created accessed st)) = Inr (?config1, Fresh)"
    by simp
  from a writeConfig_writable[OF w2]
  show "writable (snd (addWorkspace nw uuid created accessed st))" by simp
qed

lemma removeWorkspace_ok:
  assumes "writable st" and "readConfig st = Inr (config, sh)"
  shows "fst (removeWorkspace i st) = Inr ()"
    and "readConfig (snd (removeWorkspace i st)) =
           Inr (config\<lparr>workspaces := filter (\<lambda>w. id_w w \<noteq> i) (workspaces config)\<rparr>, Fresh)"
proof -
  let ?kept = "filter (\<lambda>w. id_w w \<noteq> i) (workspaces config)"
  let ?config1 = "config\<lparr>workspaces := ?kept\<rparr>"
  let ?st1 = "if sh = DefaultObject
              then st\<lparr>defaults := (defaults st)\<lparr>workspaces := ?kept\<rparr>\<rparr> else st"
  from assms(1) have "writable ?st1" by simp
  then obtain st2 where w2: "writeConfig ?config1 ?st1 = Inr st2"
    by (simp add: writeConfig_def)
  have "removeWorkspace i st =
          (case writeConfig ?config1 ?st1 of Inl e \<Rightarrow> (Inl e, ?st1) | Inr st2 \<Rightarrow> (Inr (), st2))"
    unfolding removeWorkspace_def Let_def assms(2) by simp
  with w2 have a: "removeWorkspace i st = (Inr (), st2)" by simp
  from a show "fst (removeWorkspace i st) = Inr ()" by simp
  from a readConfig_writeConfig[OF w2]
  show "readConfig (snd (removeWorkspace i st)) = Inr (?config1, Fresh)" by simp
qed

lemma getWorkspaceById_read:
  "readConfig st = Inr (config, sh) \<Longrightarrow>
   getWorkspaceById i st = Inr (find (\<lambda>w. id_w w = i) (workspaces config))"
  by (simp add: getWorkspaceById_def)

text \<open>
  Claim C10. Adding a workspace and looking it up gives back the record that
  \<open>addWorkspace\<close> returned, and removing it makes the lookup come back empty, while the
  lookup of every other id is unchanged by both steps. The store can be written, and the
  generated id is fresh: no workspace of the configuration has it yet.
\<close>

theorem workspace_roundtrip:
  assumes "writable st" and "getWorkspaceById uuid st = Inr None"
  shows
    "let w = \<lparr>id_w = uuid, title = title_n nw, path = path_n nw, type_w = type_n nw,
              lastAccessed = accessed, createdAt = created\<rparr>;
         st1 = snd (addWorkspace nw uuid created accessed st);
         st2 = snd (removeWorkspace uuid st1)
     in fst (addWorkspace nw uuid created accessed st) = Inr w
        \<and> getWorkspaceById uuid st1 = Inr (Some w)
        \<and> (\<forall>i. i \<noteq> uuid \<longrightarrow> getWorkspaceById i st1 = getWorkspaceById i st)
        \<and> fst (removeWorkspace uuid st1) = Inr ()
        \<and> getWorkspaceById uuid st2 = Inr None
        \<and> (\<forall>i. i \<noteq> uuid \<longrightarrow> getWorkspaceById i st2 = getWorkspaceById i st)"
proof -
  define w where "w = \<lparr>id_w = uuid, title = title_n nw, path = path_n nw, type_w = type_n nw,
                        lastAccessed = accessed, createdAt = created\<rparr>"
  define st1 where "st1 = snd (addWorkspace nw uuid created accessed st)"
  define st2 where "st2 = snd (removeWorkspace uuid st1)"
  from assms(2) obtain config sh where r: "readConfig st = Inr (config, sh)"
    by (auto simp: getWorkspaceById_def split: sum.splits)
  with assms(2) have fresh: "find (\<lambda>w. id_w w = uuid) (workspaces config) = None"
    by (simp add: getWorkspaceById_read)
  let ?config1 = "config\<lparr>workspaces := workspaces config @ [w]\<rparr>"
  from addWorkspace_ok[OF assms(1) r w_def]
  have a: "fst (addWorkspace nw uuid created accessed st) = Inr w"
    and r1: "readConfig st1 = Inr (?config1, Fresh)"
    and w1: "writable st1"
    by (simp_all add: st1_def)
  from removeWorkspace_ok[OF w1 r1, of uuid]
  have b: "fst (removeWorkspace uuid st1) = Inr ()"
    and r2: "readConfig st2 =
               Inr (?config1\<lparr>workspaces := filter (\<lambda>w. id_w w \<noteq> uuid) (workspaces ?config1)\<rparr>, Fresh)"
    by (simp_all add: st2_def)
  have g1: "getWorkspaceById uuid st1 = Inr (Some w)"
    using fresh by (simp add: getWorkspaceById_read[OF r1] find_snoc_fresh w_def)
  have o1: "getWorkspaceById i st1 = getWorkspaceById i st" if "i \<noteq> uuid" for i
    using that
    by (simp add: getWorkspaceById_read[OF r1] getWorkspaceById_read[OF r] find_snoc_other w_def)
  let ?config2 = "?config1\<lparr>workspaces := filter (\<lambda>w. id_w w \<noteq> uuid) (workspaces ?config1)\<rparr>"
  have ws1: "workspaces ?config1 = workspaces config @ [w]" by simp
  have ws2: "workspaces ?config2 = filter (\<lambda>w. id_w w \<noteq> uuid) (workspaces ?config1)" by simp
  have g2: "getWorkspaceById uuid st2 = Inr None"
    unfolding getWorkspaceById_read[OF r2] ws2 by (simp only: find_filter_removed)
  have o2: "getWorkspaceById i st2 = getWorkspaceById i st" if "i \<noteq> uuid" for i
  proof -
    have "getWorkspaceById i st2 = getWorkspaceById i st1"
      unfolding getWorkspaceById_read[OF r2] getWorkspaceById_read[OF r1] ws2
      by (simp only: find_filter_other[OF that])
    with o1[OF that] show ?thesis by simp
  qed
  from a g1 o1 b g2 o2 show ?thesis
    unfolding Let_def w_def[symmetric] st1_def[symmetric] st2_def[symmetric] by blast
qed

theorem workspace_roundtrip_witness:
  "fst (addWorkspace \<lparr>title_n = ''Test Workspace'', path_n = ''/tmp'', type_n = Local\<rparr>
          ''u-1'' ''t0'' ''t1'' initial_store)
     = Inr \<lparr>id_w = ''u-1'', title = ''Test Workspace'', path = ''/tmp'', type_w = Local,
            lastAccessed = ''t1'', createdAt = ''t0''\<rparr>
   \<and> getWorkspaceById ''u-1''
        (snd (addWorkspace \<lparr>title_n = ''Test Workspace'', path_n = ''/tmp'', type_n = Local\<rparr>
                ''u-1'' ''t0'' ''t1'' initial_store))
     = Inr (Some \<lparr>id_w = ''u-1'', title = ''Test Workspace'', path = ''/tmp'', type_w = Local,
                  lastAccessed = ''t1'', createdAt = ''t0''\<rparr>)
   \<and> getWorkspaceById ''u-1''
        (snd (removeWorkspace ''u-1''
           (snd (addWorkspace \<lparr>title_n = ''Test Workspace'', path_n = ''/tmp'', type_n = Local\<rparr>
                   ''u-1'' ''t0'' ''t1'' initial_store))))
     = Inr None"
proof -
  have h1: "writable initial_store" by (simp add: initial_store_def)
  have h2: "getWorkspaceById ''u-1'' initial_store = Inr None"
    by (simp add: getWorkspaceById_def readConfig_def initial_store_def DEFAULT_CONFIG_def)
  from workspace_roundtrip[OF h1 h2,
      of "\<lparr>title_n = ''Test Workspace'', path_n = ''/tmp'', type_n = Local\<rparr>" "''t1''" "''t0''"]
  show ?thesis by (simp add: Let_def)
qed


section \<open>The LLM client: proofs\<close>

lemma chatCompletion_settings:
  assumes "getLLMSettings st = Inr settings"
  shows "chatCompletion agent msgs st =
     (case find (\<lambda>m. agentId m = agent) (agentMappings settings) of
        None \<Rightarrow> Inl (Thrown (''No mapping found for agent: '' @ agent))
      | Some mapping \<Rightarrow>
          (case find (\<lambda>p. id_p p = providerId mapping) (providers settings) of
             None \<Rightarrow>
               Inl (Thrown (''Provider '' @ providerId mapping @ '' is not configured or enabled''))
           | Some provider \<Rightarrow>
               if \<not> enabled provider \<or> apiKey provider = []
               then Inl (Thrown (''Provider '' @ providerId mapping
                                   @ '' is not configured or enabled''))
               else
                 let model = or_else (modelId mapping) (defaultModel provider) in
                 if id_p provider = ''openai''
                 then Inr (callOpenAI (apiKey provider) model msgs (baseUrl provider))
                 else if id_p provider = ''anthropic''
                 then Inr (callAnthropic (apiKey provider) model msgs)
                 else if id_p provider = ''gemini''
                 then Inr (callGemini (apiKey provider) model msgs)
                 else if id_p provider = ''ollama''
                 then Inr (callOllama
                             (case baseUrl provider of
                                None \<Rightarrow> ''http://localhost:11434''
                              | Some u \<Rightarrow> or_else u ''http://localhost:11434'')
                             model msgs)
                 else Inl (Thrown (''Unsupported provider: '' @ id_p provider))))"
  unfolding chatCompletion_def assms by simp

text \<open>
  Claim C5. With the configuration read, \<open>chatCompletion\<close> throws, and dispatches to no
  provider, exactly when the agent has no mapping, or no provider entry has the mapped
  provider id, or the entry found is disabled or has an empty API key, or its id is not
  one of openai, anthropic, gemini and ollama. In every other case it dispatches to the
  provider the entry names, with the messages it was given and with the mapping's model
  id, or the entry's default model when the mapping's model id is empty.
\<close>

theorem chatCompletion_resolves:
  assumes "getLLMSettings st = Inr settings"
  shows
    "(isl (chatCompletion agent msgs st) \<longleftrightarrow>
        find (\<lambda>m. agentId m = agent) (agentMappings settings) = None
        \<or> (\<exists>mapping. find (\<lambda>m. agentId m = agent) (agentMappings settings) = Some mapping
             \<and> (find (\<lambda>p. id_p p = providerId mapping) (providers settings) = None
                \<or> (\<exists>provider.
                      find (\<lambda>p. id_p p = providerId mapping) (providers settings) = Some provider
                      \<and> (\<not> enabled provider \<or> apiKey provider = []
                          \<or> id_p provider \<notin> set supported_providers)))))
     \<and> (\<forall>call. chatCompletion agent msgs st = Inr call \<longrightarrow>
           (\<exists>mapping provider.
              find (\<lambda>m. agentId m = agent) (agentMappings settings) = Some mapping
              \<and> find (\<lambda>p. id_p p = providerId mapping) (providers settings) = Some provider
              \<and> call_provider call = id_p provider
              \<and> call_model call =
                  (if modelId mapping = [] then defaultModel provider else modelId mapping)
              \<and> call_messages call = msgs))"
proof (cases "find (\<lambda>m. agentId m = agent) (agentMappings settings)")
  case None
  then show ?thesis by (simp add: chatCompletion_settings[OF assms])
next
  case (Some mapping)
  note m = this
  show ?thesis
  proof (cases "find (\<lambda>p. id_p p = providerId mapping) (providers settings)")
    case None
    with m show ?thesis by (simp add: chatCompletion_settings[OF assms])
  next
    case (Some provider)
    with m show ?thesis
      by (simp add: chatCompletion_settings[OF assms] Let_def or_else_def
          supported_providers_def)
  qed
qed


theorem chatCompletion_resolves_witness:
  "isl (chatCompletion ''developer'' ([] :: string LLMMessage list) initial_store)
   \<and> (\<exists>call. chatCompletion ''developer'' [\<lparr>role = User, content = ''hi''\<rparr>] ollama_store
                 = Inr call
          \<and> call_provider call = ''ollama'' \<and> call_model call = ''llama3''
          \<and> call_messages call = [\<lparr>role = User, content = ''hi''\<rparr>])"
proof -
  have h1: "getLLMSettings initial_store = Inr (llmSettings DEFAULT_CONFIG)"
    by (simp add: getLLMSettings_def readConfig_def initial_store_def)
  have f1: "find (\<lambda>m. agentId m = ''developer'') (agentMappings (llmSettings DEFAULT_CONFIG))
              = Some \<lparr>agentId = ''developer'', providerId = ''openai'', modelId = ''gpt-4o''\<rparr>"
    by (simp add: DEFAULT_CONFIG_def)
  have f2: "find (\<lambda>p. id_p p = ''openai'') (providers (llmSettings DEFAULT_CONFIG))
              = Some \<lparr>id_p = ''openai'', name_p = ''OpenAI'', apiKey = [], baseUrl = None,
                      defaultModel = ''gpt-4o'', enabled = False\<rparr>"
    by (simp add: DEFAULT_CONFIG_def)
  from chatCompletion_resolves[OF h1, of "''developer''" "[] :: string LLMMessage list"] f1 f2
  have c1: "isl (chatCompletion ''developer'' ([] :: string LLMMessage list) initial_store)"
    by simp
  let ?msgs = "[\<lparr>role = User, content = ''hi''\<rparr>]"
  have h2: "getLLMSettings ollama_store = Inr ollama_settings"
    by (simp add: getLLMSettings_def readConfig_def ollama_store_def ollama_settings_def)
  have g1: "find (\<lambda>m. agentId m = ''developer'') (agentMappings ollama_settings)
              = Some \<lparr>agentId = ''developer'', providerId = ''ollama'', modelId = []\<rparr>"
    by (simp add: ollama_settings_def)
  have g2: "find (\<lambda>p. id_p p = ''ollama'') (providers ollama_settings)
              = Some \<lparr>id_p = ''ollama'', name_p = ''Ollama (Local)'', apiKey = ''na'',
                      baseUrl = Some ''http://localhost:11434'', defaultModel = ''llama3'',
                      enabled = True\<rparr>"
    by (simp add: ollama_settings_def)
  from chatCompletion_resolves[OF h2, of "''developer''" ?msgs] g1 g2
  have r: "\<not> isl (chatCompletion ''developer'' ?msgs ollama_store)"
    and d: "\<forall>call. chatCompletion ''developer'' ?msgs ollama_store = Inr call \<longrightarrow>
           (\<exists>mapping provider.
              find (\<lambda>m. agentId m = ''developer'') (agentMappings ollama_settings) = Some mapping
              \<and> find (\<lambda>p. id_p p = providerId mapping) (providers ollama_settings) = Some provider
              \<and> call_provider call = id_p provider
              \<and> call_model call =
                  (if modelId mapping = [] then defaultModel provider else modelId mapping)
              \<and> call_messages call = ?msgs)"
    by (simp_all add: supported_providers_def)
  from r obtain call where c: "chatCompletion ''developer'' ?msgs ollama_store = Inr call"
    by (cases "chatCompletion ''developer'' ?msgs ollama_store") auto
  from d c obtain mapping provider where
    "find (\<lambda>m. agentId m = ''developer'') (agentMappings ollama_settings) = Some mapping"
    "find (\<lambda>p. id_p p = providerId mapping) (providers ollama_settings) = Some provider"
    "call_provider call = id_p provider"
    "call_model call = (if modelId mapping = [] then defaultModel provider else modelId mapping)"
    "call_messages call = ?msgs"
    by blast
  with g1 g2 have "call_provider call = ''ollama''" "call_model call = ''llama3''"
    "call_messages call = ?msgs"
    by auto
  with c c1 show ?thesis by blast
qed

section \<open>The server actions: proofs\<close>




section \<open>The workspace page: proofs\<close>







subsection \<open>Routing of a submitted input\<close>

lemma trim_empty_iff: "trim s = [] \<longleftrightarrow> list_all is_whitespace s"
proof -
  have "trim s = [] \<longleftrightarrow> dropWhile is_whitespace (rev (dropWhile is_whitespace s)) = []"
    by (simp add: trim_def)
  also have "\<dots> \<longleftrightarrow> (\<forall>c\<in>set (dropWhile is_whitespace s). is_whitespace c)"
    by (simp add: dropWhile_eq_Nil_conv)
  also have "\<dots> \<longleftrightarrow> dropWhile is_whitespace s = []"
  proof
    assume a: "\<forall>c\<in>set (dropWhile is_whitespace s). is_whitespace c"
    show "dropWhile is_whitespace s = []"
    proof (cases "dropWhile is_whitespace s")
      case Nil
      then show ?thesis .
    next
      case (Cons c cs)
      then have "\<not> is_whitespace c" using hd_dropWhile[of is_whitespace s] by auto
      with a Cons show ?thesis by simp
    qed
  next
    assume e: "dropWhile is_whitespace s = []"
    show "\<forall>c\<in>set (dropWhile is_whitespace s). is_whitespace c"
      unfolding e by simp
  qed
  also have "\<dots> \<longleftrightarrow> list_all is_whitespace s"
    by (simp add: dropWhile_eq_Nil_conv list_all_iff)
  finally show ?thesis .
qed

lemma startsWith_slash: "startsWith t [slash] \<longleftrightarrow> (\<exists>rest. t = slash # rest)"
  by (cases t) (auto simp: startsWith_def)

text \<open>
  Claim C6. A submitted input goes to exactly one place, decided by its trimmed text.
  An input that is empty or all white space goes nowhere and changes nothing. Any
  other input goes to the slash-command handler, as its trimmed text, if and only if
  the trimmed text begins with the character \<open>/\<close>; otherwise it is appended to the chat
  as the user's message, untrimmed, and sent to the orchestrator after the messages
  already there.
\<close>

theorem handleSendMessage_routes:
  "(list_all is_whitespace (inputValue s) \<longrightarrow> handleSendMessage s = (NoDispatch, s))
   \<and> (\<not> list_all is_whitespace (inputValue s) \<longrightarrow>
        fst (handleSendMessage s) \<noteq> NoDispatch
        \<and> ((\<exists>rest. trim (inputValue s) = slash # rest) \<longleftrightarrow>
             fst (handleSendMessage s) = ToSlashCommand (trim (inputValue s)))
        \<and> ((\<exists>rest. trim (inputValue s) = slash # rest) \<longrightarrow>
             messages (snd (handleSendMessage s)) =
               messages s @ [\<lparr>role = User, content = trim (inputValue s)\<rparr>])
        \<and> (\<not> (\<exists>rest. trim (inputValue s) = slash # rest) \<longleftrightarrow>
             fst (handleSendMessage s) =
               ToOrchestrator (messages s @ [\<lparr>role = User, content = inputValue s\<rparr>]))
        \<and> (\<not> (\<exists>rest. trim (inputValue s) = slash # rest) \<longrightarrow>
             messages (snd (handleSendMessage s)) =
               messages s @ [\<lparr>role = User, content = inputValue s\<rparr>]))"
proof (cases "trim (inputValue s) = []")
  case True
  then show ?thesis by (simp add: trim_empty_iff[symmetric] handleSendMessage_def)
next
  case nonempty: False
  then have nw: "\<not> list_all is_whitespace (inputValue s)" by (simp add: trim_empty_iff)
  show ?thesis
  proof (cases "startsWith (trim (inputValue s)) [slash]")
    case True
    with nonempty nw show ?thesis
      by (simp add: handleSendMessage_def handleSlashCommand_def Let_def
          startsWith_slash[symmetric])
  next
    case False
    with nonempty nw show ?thesis
      by (simp add: handleSendMessage_def Let_def startsWith_slash[symmetric])
  qed
qed


theorem handleSendMessage_routes_witness:
  "handleSendMessage (empty_page [32, 9]) = (NoDispatch, empty_page [32, 9])
   \<and> fst (handleSendMessage (empty_page [32, 47, 104, 32])) = ToSlashCommand [47, 104]
   \<and> fst (handleSendMessage (empty_page [104, 105])) =
       ToOrchestrator [\<lparr>role = User, content = [104, 105]\<rparr>]"
proof -
  have b: "list_all is_whitespace (inputValue (empty_page [32, 9]))"
    by (simp add: empty_page_def is_whitespace_def)
  from handleSendMessage_routes[of "empty_page [32, 9]"] b
  have 1: "handleSendMessage (empty_page [32, 9]) = (NoDispatch, empty_page [32, 9])"
    by blast
  have n2: "\<not> list_all is_whitespace (inputValue (empty_page [32, 47, 104, 32]))"
    by (simp add: empty_page_def is_whitespace_def)
  have t2: "trim (inputValue (empty_page [32, 47, 104, 32])) = [47, 104]"
    by (simp add: empty_page_def trim_def is_whitespace_def)
  then have e2: "\<exists>rest. trim (inputValue (empty_page [32, 47, 104, 32])) = slash # rest"
    by (simp add: slash_def)
  from handleSendMessage_routes[of "empty_page [32, 47, 104, 32]"] n2 e2
  have "fst (handleSendMessage (empty_page [32, 47, 104, 32])) =
          ToSlashCommand (trim (inputValue (empty_page [32, 47, 104, 32])))"
    by blast
  with t2 have 2: "fst (handleSendMessage (empty_page [32, 47, 104, 32])) =
          ToSlashCommand [47, 104]"
    by simp
  have n3: "\<not> list_all is_whitespace (inputValue (empty_page [104, 105]))"
    by (simp add: empty_page_def is_whitespace_def)
  have t3: "trim (inputValue (empty_page [104, 105])) = [104, 105]"
    by (simp add: empty_page_def trim_def is_whitespace_def)
  then have e3: "\<not> (\<exists>rest. trim (inputValue (empty_page [104, 105])) = slash # rest)"
    by (simp add: slash_def)
  from handleSendMessage_routes[of "empty_page [104, 105]"] n3 e3
  have "fst (handleSendMessage (empty_page [104, 105])) =
          ToOrchestrator (messages (empty_page [104, 105])
                            @ [\<lparr>role = User, content = inputValue (empty_page [104, 105])\<rparr>])"
    by blast
  then have 3: "fst (handleSendMessage (empty_page [104, 105])) =
       ToOrchestrator [\<lparr>role = User, content = [104, 105]\<rparr>]"
    by (simp add: empty_page_def)
  from 1 2 3 show ?thesis by blast
qed

section \<open>The PTY output parser: proofs\<close>

subsection \<open>No step of the parser reads or changes the buffered bytes\<close>

lemma scroll_up_pending: "scroll_up (t\<lparr>pending := p\<rparr>) = (scroll_up t)\<lparr>pending := p\<rparr>"
  by (simp add: scroll_up_def Let_def)

lemma line_feed_pending: "line_feed (t\<lparr>pending := p\<rparr>) = (line_feed t)\<lparr>pending := p\<rparr>"
  by (simp add: line_feed_def scroll_up_pending)

lemma put_char_pending: "put_char b (t\<lparr>pending := p\<rparr>) = (put_char b t)\<lparr>pending := p\<rparr>"
proof -
  have swap: "t\<lparr>pending := p, cursor_col := 0\<rparr> = t\<lparr>cursor_col := 0, pending := p\<rparr>"
    by simp
  have "line_feed (t\<lparr>pending := p, cursor_col := 0\<rparr>) =
        (line_feed (t\<lparr>cursor_col := 0\<rparr>))\<lparr>pending := p\<rparr>"
    unfolding swap by (rule line_feed_pending)
  then show ?thesis by (simp add: put_char_def Let_def)
qed

lemma plain_byte_pending: "plain_byte b (t\<lparr>pending := p\<rparr>) = (plain_byte b t)\<lparr>pending := p\<rparr>"
  by (simp add: plain_byte_def line_feed_pending put_char_pending)

lemma set_attribute_pending:
  "set_attribute q (t\<lparr>pending := p\<rparr>) = (set_attribute q t)\<lparr>pending := p\<rparr>"
  by (simp add: set_attribute_def)

lemma fold_set_attribute_pending:
  "fold set_attribute ps (t\<lparr>pending := p\<rparr>) = (fold set_attribute ps t)\<lparr>pending := p\<rparr>"
  by (induction ps arbitrary: t) (simp_all add: set_attribute_pending)

lemma perform_pending: "perform a (t\<lparr>pending := p\<rparr>) = (perform a t)\<lparr>pending := p\<rparr>"
  by (cases a) (simp_all add: fold_set_attribute_pending)

lemma consume_pending: "consume (t\<lparr>pending := p\<rparr>) bs = consume t bs"
proof (induction t bs rule: consume.induct)
  case (1 t)
  show ?case by simp
next
  case (2 t b bs)
  show ?case
  proof (cases "b = 27")
    case False
    with 2(3) show ?thesis by (simp add: plain_byte_pending)
  next
    case True
    show ?thesis
    proof (cases "parse_escape bs")
      case (Complete a rest)
      with True 2(1) show ?thesis by (simp add: perform_pending)
    next
      case Incomplete
      with True show ?thesis by simp
    next
      case Malformed
      with True 2(2) show ?thesis by (simp add: put_char_pending)
    qed
  qed
qed

subsection \<open>More bytes do not change what has been recognized\<close>

lemma parse_escape_Complete_append:
  assumes "parse_escape bs = Complete a rest"
  shows "parse_escape (bs @ ext) = Complete a (rest @ ext)"
proof -
  from assms obtain after final where bs: "bs = 91 # after"
    and d: "dropWhile is_param after = final # rest"
    and c: "csi_action (params_acc 0 (takeWhile is_param after)) final = Some a"
    by (auto simp: parse_escape_def split: list.splits if_splits option.splits)
  from d have "final \<in> set after" "\<not> is_param final"
    using set_dropWhileD[of final is_param after] hd_dropWhile[of is_param after] by auto
  then have "takeWhile is_param (after @ ext) = takeWhile is_param after"
    and "dropWhile is_param (after @ ext) = dropWhile is_param after @ ext"
    by (simp_all add: takeWhile_append1 dropWhile_append1)
  with bs d c show ?thesis by (simp add: parse_escape_def)
qed

lemma parse_escape_Malformed_append:
  assumes "parse_escape bs = Malformed"
  shows "parse_escape (bs @ ext) = Malformed"
proof -
  from assms obtain b after where bs: "bs = b # after"
    by (cases bs) (auto simp: parse_escape_def)
  show ?thesis
  proof (cases "b = 91")
    case False
    with bs show ?thesis by (simp add: parse_escape_def)
  next
    case True
    with assms bs obtain final rest where d: "dropWhile is_param after = final # rest"
      and c: "csi_action (params_acc 0 (takeWhile is_param after)) final = None"
      by (auto simp: parse_escape_def split: list.splits if_splits option.splits)
    from d have "final \<in> set after" "\<not> is_param final"
      using set_dropWhileD[of final is_param after] hd_dropWhile[of is_param after] by auto
    then have "takeWhile is_param (after @ ext) = takeWhile is_param after"
      and "dropWhile is_param (after @ ext) = dropWhile is_param after @ ext"
      by (simp_all add: takeWhile_append1 dropWhile_append1)
    with bs True d c show ?thesis by (simp add: parse_escape_def)
  qed
qed

subsection \<open>Feeding in two chunks\<close>

lemma consume_append:
  "consume t (xs @ ys) = consume (consume t xs) (pending (consume t xs) @ ys)"
proof (induction t xs rule: consume.induct)
  case (1 t)
  show ?case by (simp add: consume_pending)
next
  case (2 t b bs)
  show ?case
  proof (cases "b = 27")
    case False
    with 2(3) show ?thesis by simp
  next
    case True
    show ?thesis
    proof (cases "parse_escape bs")
      case (Complete a rest)
      with True 2(1) parse_escape_Complete_append[OF Complete, of ys] show ?thesis by simp
    next
      case Incomplete
      have "consume (t\<lparr>pending := b # bs\<rparr>) ((b # bs) @ ys) = consume t ((b # bs) @ ys)"
        by (rule consume_pending)
      with True Incomplete show ?thesis by simp
    next
      case Malformed
      with True 2(2) parse_escape_Malformed_append[OF Malformed, of ys] show ?thesis by simp
    qed
  qed
qed

text \<open>
  Claim C7. Feeding the parser a sequence of bytes in two chunks, in two successive
  calls, leaves it in the same state (grid, cursor, colours, scroll region, scrollback
  and buffered bytes) as feeding it the whole sequence in one call, wherever the split
  falls, also inside an escape sequence.
\<close>

theorem feed_split_invariant: "feed (feed t first_chunk) second_chunk = feed t (first_chunk @ second_chunk)"
proof -
  have "feed t (first_chunk @ second_chunk) = consume t ((pending t @ first_chunk) @ second_chunk)"
    by (simp add: feed_def)
  also have "\<dots> = consume (consume t (pending t @ first_chunk))
                      (pending (consume t (pending t @ first_chunk)) @ second_chunk)"
    by (rule consume_append)
  also have "\<dots> = feed (feed t first_chunk) second_chunk"
    by (simp add: feed_def)
  finally show ?thesis by simp
qed

text \<open>
  An example: the colour sequence ESC [ 3 1 m cut after the digit 3. The first call
  prints nothing and keeps the three bytes; the second call sets the colour and prints
  the letter A in it.
\<close>

lemma feed_split_example:
  "pending (feed (new_emulator 4 2) [27, 91, 51]) = [27, 91, 51]
   \<and> grid (feed (new_emulator 4 2) [27, 91, 51]) = grid (new_emulator 4 2)
   \<and> grid (feed (feed (new_emulator 4 2) [27, 91, 51]) [49, 109, 65]) =
       [[\<lparr>glyph = 65, fg = Some 1, bg = None\<rparr>, blank, blank, blank],
        [blank, blank, blank, blank]]
   \<and> pending (feed (feed (new_emulator 4 2) [27, 91, 51]) [49, 109, 65]) = []"
  by (simp add: feed_def new_emulator_def parse_escape_def is_param_def csi_action_def
      set_attribute_def plain_byte_def put_char_def Let_def numeral_eq_Suc)

end
